theory Spec2Isabelle
  imports Main "HOL-Library.AList"
begin

section \<open>Data model (package parser, types)\<close>

text \<open>
  The Go structs of the parser package, one record each. Go's \<open>int\<close> is modelled as
  \<open>int\<close>: line numbers and counters are only compared and incremented. A nullable
  \<open>*Function\<close> is a \<open>Function option\<close>; a slice is a list (a nil slice is the empty
  list). Field names carry a one-letter prefix of their struct where two structs share a
  field name.
\<close>

datatype TokenType =
  TokenEOF | TokenIdent | TokenNumber | TokenString | TokenKeyword
  | TokenOperator | TokenPunctuation | TokenNewline

record Token =
  tType :: TokenType
  tValue :: string
  tLine :: int
  tColumn :: int

record Member =
  mName :: string
  mType :: string
  mIsPointer :: bool
  mIsArray :: bool
  mLine :: int

record Allocation =
  aVarName :: string
  aIsArray :: bool
  aLine :: int

record Deallocation =
  dVarName :: string
  dIsArray :: bool
  dLine :: int

record PointerAlias =
  SourceVar :: string
  TargetVar :: string
  pLine :: int

record Function =
  fName :: string
  IsDestructor :: bool
  fStartLine :: int
  fEndLine :: int
  Allocations :: "Allocation list"
  Deallocations :: "Deallocation list"
  MethodCalls :: "string list"
  Aliases :: "PointerAlias list"

record Class =
  cName :: string
  cFile :: string
  cStartLine :: int
  cEndLine :: int
  Members :: "Member list"
  Constructor :: "Function option"
  Destructor :: "Function option"
  Methods :: "Function list"

record Leak =
  lFile :: string
  lLine :: int
  lClassName :: string
  lVarName :: string
  lReason :: string
  lSeverity :: string

section \<open>Analyzer (package analyzer)\<close>

definition MaxMethodDepth :: int where
  "MaxMethodDepth = 5"

text \<open>
  Go maps that the analyzer only looks up (\<open>methodMap\<close>, \<open>deallocatedVars\<close>,
  \<open>aliasMap\<close>, \<open>visited\<close>) are HOL maps and sets. The two maps it ranges over
  (\<open>pointerMembers\<close>, \<open>allocatedVars\<close>) are association lists with one entry per
  key: an assignment \<open>m[k] = v\<close> replaces the entry of \<open>k\<close> or adds one. Go leaves the
  order of a \<open>range\<close> over a map open; the lists fix the order of first insertion, and the
  properties below speak about which leaks are emitted and how often, not about their
  order inside one rule.
\<close>

definition pointerMembers :: "Class \<Rightarrow> (string \<times> Member) list" where
  "pointerMembers c =
     fold (\<lambda>m pm. if mIsPointer m then AList.update (mName m) m pm else pm) (Members c) []"

definition allocatedVars :: "Class \<Rightarrow> (string \<times> Allocation) list" where
  "allocatedVars c =
     (case Constructor c of
        None \<Rightarrow> []
      | Some k \<Rightarrow> fold (\<lambda>a av. AList.update (aVarName a) a av) (Allocations k) [])"

definition methodMap :: "Class \<Rightarrow> (string \<rightharpoonup> Function)" where
  "methodMap c = fold (\<lambda>m mm. mm(fName m \<mapsto> m)) (Methods c) Map.empty"

definition addDeallocations ::
  "Deallocation list \<Rightarrow> (string \<rightharpoonup> Deallocation) \<Rightarrow> (string \<rightharpoonup> Deallocation)" where
  "addDeallocations ds result = fold (\<lambda>d r. r(dVarName d \<mapsto> d)) ds result"

text \<open>
  \<open>collectDeallocations\<close> mutates the maps \<open>result\<close> and \<open>visited\<close> it is given; the
  model passes the pair through and returns it. The loop over \<open>fn.MethodCalls\<close> is
  \<open>collectCalls\<close>.
\<close>

function collectDeallocations ::
    "Function option \<Rightarrow> (string \<rightharpoonup> Function) \<Rightarrow> (string \<rightharpoonup> Deallocation) \<times> string set
       \<Rightarrow> int \<Rightarrow> (string \<rightharpoonup> Deallocation) \<times> string set"
  and collectCalls ::
    "string list \<Rightarrow> (string \<rightharpoonup> Function) \<Rightarrow> (string \<rightharpoonup> Deallocation) \<times> string set
       \<Rightarrow> int \<Rightarrow> (string \<rightharpoonup> Deallocation) \<times> string set"
where
  "collectDeallocations fn mm st depth =
     (if depth \<le> 0 then st
      else case fn of
        None \<Rightarrow> st
      | Some f \<Rightarrow>
          if fName f \<in> snd st then st
          else collectCalls (MethodCalls f) mm
                 (addDeallocations (Deallocations f) (fst st), insert (fName f) (snd st)) depth)"
| "collectCalls [] mm st depth = st"
| "collectCalls (methodName # rest) mm st depth =
     collectCalls rest mm
       (case mm methodName of
          None \<Rightarrow> st
        | Some calledMethod \<Rightarrow> collectDeallocations (Some calledMethod) mm st (depth - 1))
       depth"
  by pat_completeness auto
termination
  by (relation "inv_image (less_than <*lex*> less_than)
        (\<lambda>x. case x of
            Inl (fn, mm, st, depth) \<Rightarrow> (if depth \<le> 0 then 0 else 2 * nat depth + 1, 0)
          | Inr (cs, mm, st, depth) \<Rightarrow> (2 * nat depth, Suc (length cs)))")
     auto

definition appendAlias :: "(string \<rightharpoonup> string list) \<Rightarrow> string \<Rightarrow> string \<Rightarrow> (string \<rightharpoonup> string list)" where
  "appendAlias am k v = am(k \<mapsto> (case am k of None \<Rightarrow> [] | Some xs \<Rightarrow> xs) @ [v])"

definition collectAliasesFromFunc :: "Function \<Rightarrow> (string \<rightharpoonup> string list) \<Rightarrow> (string \<rightharpoonup> string list)" where
  "collectAliasesFromFunc fn aliasMap =
     fold (\<lambda>alias am.
             appendAlias (appendAlias am (SourceVar alias) (TargetVar alias))
               (TargetVar alias) (SourceVar alias))
          (Aliases fn) aliasMap"

definition buildAliasMap :: "Class \<Rightarrow> (string \<rightharpoonup> string list)" where
  "buildAliasMap c =
     (let am0 = Map.empty;
          am1 = (case Constructor c of None \<Rightarrow> am0 | Some k \<Rightarrow> collectAliasesFromFunc k am0);
          am2 = (case Destructor c of None \<Rightarrow> am1 | Some d \<Rightarrow> collectAliasesFromFunc d am1)
      in fold collectAliasesFromFunc (Methods c) am2)"

fun anyAliasDeallocated :: "string list \<Rightarrow> (string \<rightharpoonup> Deallocation) \<Rightarrow> bool" where
  "anyAliasDeallocated [] dv = False"
| "anyAliasDeallocated (aliasName # rest) dv =
     (case dv aliasName of Some _ \<Rightarrow> True | None \<Rightarrow> anyAliasDeallocated rest dv)"

definition isVarDeallocated ::
  "string \<Rightarrow> (string \<rightharpoonup> Deallocation) \<Rightarrow> (string \<rightharpoonup> string list) \<Rightarrow> bool" where
  "isVarDeallocated varName dv aliasMap =
     (case dv varName of
        Some _ \<Rightarrow> True
      | None \<Rightarrow>
          (case aliasMap varName of
             Some aliases \<Rightarrow> anyAliasDeallocated aliases dv
           | None \<Rightarrow> False))"

fun firstAliasDeallocation :: "string list \<Rightarrow> (string \<rightharpoonup> Deallocation) \<Rightarrow> Deallocation option" where
  "firstAliasDeallocation [] dv = None"
| "firstAliasDeallocation (aliasName # rest) dv =
     (case dv aliasName of Some d \<Rightarrow> Some d | None \<Rightarrow> firstAliasDeallocation rest dv)"

definition findDeallocation ::
  "string \<Rightarrow> (string \<rightharpoonup> Deallocation) \<Rightarrow> (string \<rightharpoonup> string list) \<Rightarrow> Deallocation option" where
  "findDeallocation varName dv aliasMap =
     (case dv varName of
        Some d \<Rightarrow> Some d
      | None \<Rightarrow>
          (case aliasMap varName of
             Some aliases \<Rightarrow> firstAliasDeallocation aliases dv
           | None \<Rightarrow> None))"

definition deallocatedVars :: "Class \<Rightarrow> (string \<rightharpoonup> Deallocation)" where
  "deallocatedVars c =
     (case Destructor c of
        None \<Rightarrow> Map.empty
      | Some d \<Rightarrow>
          fst (collectDeallocations (Some d) (methodMap c) (Map.empty, {}) MaxMethodDepth))"

text \<open>The single quote, for reason texts that end or begin with one.\<close>

abbreviation sq :: string where
  "sq \<equiv> [CHR 0x27]"

definition mkLeak :: "Class \<Rightarrow> int \<Rightarrow> string \<Rightarrow> string \<Rightarrow> string \<Rightarrow> Leak" where
  "mkLeak c line varName reason severity =
     \<lparr>lFile = cFile c, lLine = line, lClassName = cName c, lVarName = varName,
      lReason = reason, lSeverity = severity\<rparr>"

text \<open>Rule 1: the body of the loop over \<open>allocatedVars\<close>; it returns what the pass appends.\<close>

definition rule1Entry ::
  "Class \<Rightarrow> (string \<rightharpoonup> Deallocation) \<Rightarrow> (string \<rightharpoonup> string list) \<Rightarrow> string \<times> Allocation \<Rightarrow> Leak list" where
  "rule1Entry c dv aliasMap e =
     (let varName = fst e; alloc = snd e in
      if \<not> isVarDeallocated varName dv aliasMap then
        [mkLeak c (aLine alloc) varName
           ''allocated with 'new' but not deleted in destructor'' ''error'']
      else
        (case findDeallocation varName dv aliasMap of
           None \<Rightarrow> []
         | Some dealloc \<Rightarrow>
             if aIsArray alloc \<and> \<not> dIsArray dealloc then
               [mkLeak c (dLine dealloc) varName
                  (''allocated with 'new[]' but deleted with 'delete' instead of 'delete[]'' @ sq)
                  ''error'']
             else if \<not> aIsArray alloc \<and> dIsArray dealloc then
               [mkLeak c (dLine dealloc) varName
                  (''allocated with 'new' but deleted with 'delete[]' instead of 'delete'' @ sq)
                  ''warning'']
             else []))"

text \<open>Rule 2: the inner loop with its \<open>break\<close>, then the body for one allocation.\<close>

fun hasDeleteBeforeNew :: "Deallocation list \<Rightarrow> Allocation \<Rightarrow> bool" where
  "hasDeleteBeforeNew [] alloc = False"
| "hasDeleteBeforeNew (dealloc # rest) alloc =
     (if dVarName dealloc = aVarName alloc \<and> dLine dealloc < aLine alloc then True
      else hasDeleteBeforeNew rest alloc)"

definition rule2Alloc ::
  "Class \<Rightarrow> (string \<times> Member) list \<Rightarrow> (string \<times> Allocation) list \<Rightarrow> Function \<Rightarrow> Allocation \<Rightarrow> Leak list" where
  "rule2Alloc c pm av method alloc =
     (case map_of pm (aVarName alloc) of
        None \<Rightarrow> []
      | Some _ \<Rightarrow>
          if \<not> hasDeleteBeforeNew (Deallocations method) alloc then
            (case map_of av (aVarName alloc) of
               None \<Rightarrow> []
             | Some _ \<Rightarrow>
                 [mkLeak c (aLine alloc) (aVarName alloc)
                    (''pointer reassigned with 'new' without deleting previous allocation (in ''
                       @ fName method @ '')'')
                    ''warning''])
          else [])"

text \<open>Rule 3: the scan of the method's deallocations sets two flags.\<close>

definition sourceDeleted :: "Deallocation list \<Rightarrow> PointerAlias \<Rightarrow> bool" where
  "sourceDeleted ds alias = fold (\<lambda>d b. if dVarName d = SourceVar alias then True else b) ds False"

definition targetDeleted :: "Deallocation list \<Rightarrow> PointerAlias \<Rightarrow> bool" where
  "targetDeleted ds alias = fold (\<lambda>d b. if dVarName d = TargetVar alias then True else b) ds False"

definition rule3Alias ::
  "Class \<Rightarrow> (string \<times> Member) list \<Rightarrow> Function \<Rightarrow> PointerAlias \<Rightarrow> Leak list" where
  "rule3Alias c pm method alias =
     (case map_of pm (SourceVar alias) of
        None \<Rightarrow> []
      | Some _ \<Rightarrow>
          if sourceDeleted (Deallocations method) alias \<and> targetDeleted (Deallocations method) alias
          then [mkLeak c (pLine alias) (SourceVar alias)
                  (''pointer aliased to '' @ sq @ TargetVar alias @ sq
                     @ '' and both are deleted (potential double-free)'')
                  ''error'']
          else [])"

definition rule4Member ::
  "Class \<Rightarrow> (string \<times> Allocation) list \<Rightarrow> string \<times> Member \<Rightarrow> Leak list" where
  "rule4Member c av e =
     (let member = snd e in
      case map_of av (mName member) of
        None \<Rightarrow> []
      | Some _ \<Rightarrow>
          [mkLeak c (mLine member) (mName member)
             ''pointer member allocated but class has no destructor'' ''error''])"

text \<open>
  \<open>analyzeClass\<close>: the four passes append to \<open>leaks\<close> in turn. \<open>appendEach\<close> is the
  shape of every pass: a \<open>range\<close> loop whose body appends to the slice.
\<close>

definition appendEach :: "('a \<Rightarrow> Leak list) \<Rightarrow> 'a list \<Rightarrow> Leak list \<Rightarrow> Leak list" where
  "appendEach body xs leaks = fold (\<lambda>x acc. acc @ body x) xs leaks"

definition rule1 :: "Class \<Rightarrow> Leak list \<Rightarrow> Leak list" where
  "rule1 c leaks =
     appendEach (rule1Entry c (deallocatedVars c) (buildAliasMap c)) (allocatedVars c) leaks"

definition rule2 :: "Class \<Rightarrow> Leak list \<Rightarrow> Leak list" where
  "rule2 c leaks =
     fold (\<lambda>method acc.
             appendEach (rule2Alloc c (pointerMembers c) (allocatedVars c) method)
               (Allocations method) acc)
          (Methods c) leaks"

definition rule3 :: "Class \<Rightarrow> Leak list \<Rightarrow> Leak list" where
  "rule3 c leaks =
     fold (\<lambda>method acc.
             appendEach (rule3Alias c (pointerMembers c) method) (Aliases method) acc)
          (Methods c) leaks"

definition rule4 :: "Class \<Rightarrow> Leak list \<Rightarrow> Leak list" where
  "rule4 c leaks =
     (case Destructor c of
        None \<Rightarrow> appendEach (rule4Member c (allocatedVars c)) (pointerMembers c) leaks
      | Some _ \<Rightarrow> leaks)"

definition analyzeClass :: "Class \<Rightarrow> Leak list" where
  "analyzeClass c =
     (if length (pointerMembers c) = 0 then []
      else rule4 c (rule3 c (rule2 c (rule1 c []))))"

declare collectDeallocations.simps [simp del]

subsection \<open>Reason texts and the alias relation\<close>

abbreviation reasonNotDeleted :: string where
  "reasonNotDeleted \<equiv> ''allocated with 'new' but not deleted in destructor''"

text \<open>
  The undirected alias relation of a class: \<open>b\<close> is listed under \<open>a\<close> in the map that
  \<open>buildAliasMap\<close> returns. One alias edge puts each end in the list of the other.
\<close>

definition aliasRel :: "Class \<Rightarrow> (string \<times> string) set" where
  "aliasRel c = {(a, b). \<exists>xs. buildAliasMap c a = Some xs \<and> b \<in> set xs}"

text \<open>
  The alias statements that the parser recorded for a class: the \<open>PointerAlias\<close> records of
  the constructor, the destructor and the methods, in the order in which \<open>buildAliasMap\<close>
  reads them. A statement \<open>target = source;\<close> is one record.
\<close>

definition classFunctions :: "Class \<Rightarrow> Function list" where
  "classFunctions c =
     (case Constructor c of None \<Rightarrow> [] | Some k \<Rightarrow> [k])
     @ (case Destructor c of None \<Rightarrow> [] | Some d \<Rightarrow> [d]) @ Methods c"

definition aliasRecords :: "Class \<Rightarrow> PointerAlias list" where
  "aliasRecords c = concat (map Aliases (classFunctions c))"

abbreviation listed :: "(string \<rightharpoonup> string list) \<Rightarrow> string \<Rightarrow> string set" where
  "listed am a \<equiv> (case am a of None \<Rightarrow> {} | Some xs \<Rightarrow> set xs)"

subsection \<open>The call graph of a class\<close>

text \<open>
  Vocabulary for the claims about the traversal. \<open>callees mm f\<close> are the methods that
  the names in \<open>f.MethodCalls\<close> resolve to in the method map: the invocation edges out of
  \<open>f\<close>. \<open>within mm k f\<close> are the functions at most \<open>k\<close> invocation edges away from
  \<open>f\<close>. \<open>simpleChain mm seen k f\<close> says that some chain of \<open>k\<close> invocation edges starts
  at \<open>f\<close> and runs through methods of \<open>k\<close> different names, none of them in \<open>seen\<close>.
\<close>

primrec calledMethods :: "(string \<rightharpoonup> Function) \<Rightarrow> string list \<Rightarrow> Function list" where
  "calledMethods mm [] = []"
| "calledMethods mm (n # ns) =
     (case mm n of None \<Rightarrow> calledMethods mm ns | Some g \<Rightarrow> g # calledMethods mm ns)"

definition callees :: "(string \<rightharpoonup> Function) \<Rightarrow> Function \<Rightarrow> Function list" where
  "callees mm f = calledMethods mm (MethodCalls f)"

primrec within :: "(string \<rightharpoonup> Function) \<Rightarrow> nat \<Rightarrow> Function \<Rightarrow> Function set" where
  "within mm 0 f = {f}"
| "within mm (Suc k) f = insert f (\<Union>g\<in>set (callees mm f). within mm k g)"


primrec simpleChain :: "(string \<rightharpoonup> Function) \<Rightarrow> string set \<Rightarrow> nat \<Rightarrow> Function \<Rightarrow> bool" where
  "simpleChain mm seen 0 f = True"
| "simpleChain mm seen (Suc k) f =
     (\<exists>n\<in>set (MethodCalls f). n \<notin> seen \<and>
        (case mm n of None \<Rightarrow> False | Some g \<Rightarrow> simpleChain mm (insert n seen) k g))"



text \<open>
  The traversal with a log: \<open>collectLogged\<close> is \<open>collectDeallocations\<close> with one more
  component, the list of the functions whose body ran, in order. A function is appended
  where the source executes \<open>visited[fn.Name] = true\<close>. The log is not part of the source;
  \<open>logged_fst\<close> below shows that dropping it gives \<open>collectDeallocations\<close> back.
\<close>

function collectLogged ::
    "Function option \<Rightarrow> (string \<rightharpoonup> Function)
       \<Rightarrow> ((string \<rightharpoonup> Deallocation) \<times> string set) \<times> Function list
       \<Rightarrow> int \<Rightarrow> ((string \<rightharpoonup> Deallocation) \<times> string set) \<times> Function list"
  and callsLogged ::
    "string list \<Rightarrow> (string \<rightharpoonup> Function)
       \<Rightarrow> ((string \<rightharpoonup> Deallocation) \<times> string set) \<times> Function list
       \<Rightarrow> int \<Rightarrow> ((string \<rightharpoonup> Deallocation) \<times> string set) \<times> Function list"
where
  "collectLogged fn mm sl depth =
     (if depth \<le> 0 then sl
      else case fn of
        None \<Rightarrow> sl
      | Some f \<Rightarrow>
          if fName f \<in> snd (fst sl) then sl
          else callsLogged (MethodCalls f) mm
                 ((addDeallocations (Deallocations f) (fst (fst sl)),
                   insert (fName f) (snd (fst sl))),
                  snd sl @ [f]) depth)"
| "callsLogged [] mm sl depth = sl"
| "callsLogged (methodName # rest) mm sl depth =
     callsLogged rest mm
       (case mm methodName of
          None \<Rightarrow> sl
        | Some calledMethod \<Rightarrow> collectLogged (Some calledMethod) mm sl (depth - 1))
       depth"
  by pat_completeness auto
termination
  by (relation "inv_image (less_than <*lex*> less_than)
        (\<lambda>x. case x of
            Inl (fn, mm, sl, depth) \<Rightarrow> (if depth \<le> 0 then 0 else 2 * nat depth + 1, 0)
          | Inr (cs, mm, sl, depth) \<Rightarrow> (2 * nat depth, Suc (length cs)))")
     auto

declare collectLogged.simps [simp del]

definition logInv ::
  "Function set \<Rightarrow> ((string \<rightharpoonup> Deallocation) \<times> string set) \<times> Function list \<Rightarrow> bool" where
  "logInv S sl \<longleftrightarrow>
     distinct (map fName (snd sl)) \<and> fName ` set (snd sl) = snd (fst sl) \<and> set (snd sl) \<subseteq> S"

section \<open>Class registry (package parser, registry.go)\<close>

text \<open>
  Three functions of Go's standard library, modelled from their documentation for a
  system whose path separator is \<open>/\<close>. \<open>filepath.Ext\<close> returns the suffix of the path that
  begins at the last dot of its last element, or the empty string. \<open>strings.ToLower\<close> is
  modelled on ASCII letters; other bytes are left alone, which does not change the
  comparisons with \<open>.h\<close>, \<open>.hpp\<close> and \<open>.hxx\<close> below, since no other character has one of
  their letters as its lower case. \<open>filepath.Base\<close> returns the last element of the path.
\<close>

fun extScan :: "string \<Rightarrow> string \<Rightarrow> string" where
  "extScan [] acc = []"
| "extScan (ch # front) acc =
     (if ch = CHR ''/'' then []
      else if ch = CHR ''.'' then ch # acc
      else extScan front (ch # acc))"

definition filepath_Ext :: "string \<Rightarrow> string" where
  "filepath_Ext path = extScan (rev path) []"

definition toLowerChar :: "char \<Rightarrow> char" where
  "toLowerChar ch =
     (let n = of_char ch :: nat in if 65 \<le> n \<and> n \<le> 90 then char_of (n + 32) else ch)"

definition strings_ToLower :: "string \<Rightarrow> string" where
  "strings_ToLower s = map toLowerChar s"

fun strings_Contains :: "string \<Rightarrow> string \<Rightarrow> bool" where
  "strings_Contains [] substr = (substr = [])"
| "strings_Contains (ch # s) substr =
     (take (length substr) (ch # s) = substr \<or> strings_Contains s substr)"

definition filepath_Base :: "string \<Rightarrow> string" where
  "filepath_Base path =
     (if path = [] then ''.''
      else
        (let stripped = rev (dropWhile (\<lambda>ch. ch = CHR ''/'') (rev path));
             last_elem = rev (takeWhile (\<lambda>ch. ch \<noteq> CHR ''/'') (rev stripped))
         in if last_elem = [] then ''/'' else last_elem))"

definition isHeaderFile :: "string \<Rightarrow> bool" where
  "isHeaderFile filename =
     (let ext = strings_ToLower (filepath_Ext filename)
      in ext = ''.h'' \<or> ext = ''.hpp'' \<or> ext = ''.hxx'')"

text \<open>
  \<open>mergeClassInto\<close> mutates \<open>target\<close>; the model returns the merged record. Its five steps
  are functions of their own.
\<close>

definition mergeMembers :: "Class \<Rightarrow> Class \<Rightarrow> Member list" where
  "mergeMembers target source =
     (let targetIsHeader = isHeaderFile (cFile target);
          sourceIsHeader = isHeaderFile (cFile source)
      in if sourceIsHeader \<and> \<not> targetIsHeader then
           (if length (Members source) > 0 then Members source else Members target)
         else if \<not> sourceIsHeader \<and> targetIsHeader then Members target
         else if length (Members target) = 0 \<and> length (Members source) > 0 then Members source
         else Members target)"

definition mergeConstructor :: "Class \<Rightarrow> Class \<Rightarrow> Function option" where
  "mergeConstructor target source =
     (case (Constructor target, Constructor source) of
        (None, Some s) \<Rightarrow> Some s
      | (Some t, Some s) \<Rightarrow>
          if length (Allocations s) > 0 \<and> length (Allocations t) = 0 then Some s else Some t
      | (t, None) \<Rightarrow> t)"

definition mergeDestructor :: "Class \<Rightarrow> Class \<Rightarrow> Function option" where
  "mergeDestructor target source =
     (case (Destructor target, Destructor source) of
        (None, Some s) \<Rightarrow> Some s
      | (Some t, Some s) \<Rightarrow>
          if length (Deallocations s) > 0 \<and> length (Deallocations t) = 0 then Some s else Some t
      | (t, None) \<Rightarrow> t)"

text \<open>
  The methods. \<open>methodMap\<close> holds, for each name, a pointer to the last method of that
  name in \<open>target.Methods\<close> as it is before the loop; it is not updated in the loop. An
  incoming method with a new name is appended; one with a known name, and with
  allocations or deallocations, is written through the pointer. The pointer points into
  the backing array of the slice as it was before the loop, so the write shows in
  \<open>target.Methods\<close> only as long as no append has moved the slice to a new array, that
  is, while the number of appends does not exceed the spare capacity. The capacity of
  \<open>target.Methods\<close> is not part of the record; it is the parameter \<open>cap\<close>.
\<close>

fun lastIndexOf :: "string \<Rightarrow> Function list \<Rightarrow> nat option" where
  "lastIndexOf n [] = None"
| "lastIndexOf n (m # ms) =
     (case lastIndexOf n ms of
        Some i \<Rightarrow> Some (Suc i)
      | None \<Rightarrow> if fName m = n then Some 0 else None)"

fun mergeMethodsLoop ::
  "nat \<Rightarrow> Function list \<Rightarrow> Function list \<Rightarrow> Function list \<times> nat \<Rightarrow> Function list" where
  "mergeMethodsLoop spare original [] st = fst st"
| "mergeMethodsLoop spare original (method # rest) st =
     mergeMethodsLoop spare original rest
       (case lastIndexOf (fName method) original of
          None \<Rightarrow> (fst st @ [method], Suc (snd st))
        | Some i \<Rightarrow>
            if length (Allocations method) > 0 \<or> length (Deallocations method) > 0 then
              (if snd st \<le> spare then (fst st)[i := method] else fst st, snd st)
            else st)"

definition mergeMethods :: "nat \<Rightarrow> Class \<Rightarrow> Class \<Rightarrow> Function list" where
  "mergeMethods cap target source =
     mergeMethodsLoop (cap - length (Methods target)) (Methods target) (Methods source)
       (Methods target, 0)"

definition mergeFile :: "Class \<Rightarrow> Class \<Rightarrow> string" where
  "mergeFile target source =
     (if \<not> strings_Contains (cFile target) (cFile source) \<and> cFile target \<noteq> cFile source
      then cFile target @ '', '' @ filepath_Base (cFile source)
      else cFile target)"

definition mergeClassInto :: "nat \<Rightarrow> Class \<Rightarrow> Class \<Rightarrow> Class" where
  "mergeClassInto cap target source =
     target\<lparr>Members := mergeMembers target source,
            Constructor := mergeConstructor target source,
            Destructor := mergeDestructor target source,
            Methods := mergeMethods cap target source,
            cFile := mergeFile target source\<rparr>"

section \<open>Lexer (package parser, lexer.go)\<close>

text \<open>
  The lexer state. \<open>input\<close> is the source text as bytes (\<open>char\<close> is a byte); \<open>lpos\<close> is
  the field \<open>pos\<close>, an index that is never negative; \<open>ltokens\<close> is the field \<open>tokens\<close>.
\<close>

record Lexer =
  input :: string
  lpos :: nat
  line :: int
  column :: int
  ltokens :: "Token list"

text \<open>The map \<open>keywords\<close>, as its membership test.\<close>

definition isKeyword :: "string \<Rightarrow> bool" where
  "isKeyword s \<longleftrightarrow> s \<in> set
     [''class'', ''struct'', ''public'', ''private'', ''protected'',
      ''new'', ''delete'', ''virtual'', ''const'', ''static'',
      ''void'', ''int'', ''char'', ''float'', ''double'',
      ''bool'', ''long'', ''short'', ''unsigned'', ''signed'',
      ''if'', ''else'', ''for'', ''while'', ''do'',
      ''return'', ''nullptr'', ''NULL'', ''this'',
      ''template'', ''typename'', ''namespace'', ''using'']"

text \<open>
  \<open>unicode.IsLetter(rune(ch))\<close> and \<open>unicode.IsDigit(rune(ch))\<close> for a byte \<open>ch\<close>: the
  conversion reads the byte as a code point of Latin-1, whose letters are the ASCII
  letters, \<open>0xAA\<close>, \<open>0xB5\<close>, \<open>0xBA\<close>, \<open>0xC0\<close> to \<open>0xD6\<close>, \<open>0xD8\<close> to \<open>0xF6\<close> and \<open>0xF8\<close> to
  \<open>0xFF\<close>, and whose digits are \<open>0\<close> to \<open>9\<close> (modelled from Go's \<open>unicode\<close> tables).
\<close>

definition isLetter :: "char \<Rightarrow> bool" where
  "isLetter ch =
     (let n = of_char ch :: nat
      in (65 \<le> n \<and> n \<le> 90) \<or> (97 \<le> n \<and> n \<le> 122) \<or> n = 170 \<or> n = 181 \<or> n = 186
         \<or> (192 \<le> n \<and> n \<le> 214) \<or> (216 \<le> n \<and> n \<le> 246) \<or> (248 \<le> n \<and> n \<le> 255))"

definition isDigit :: "char \<Rightarrow> bool" where
  "isDigit ch = (let n = of_char ch :: nat in 48 \<le> n \<and> n \<le> 57)"

definition NewLexer :: "string \<Rightarrow> Lexer" where
  "NewLexer inp = \<lparr>input = inp, lpos = 0, line = 1, column = 1, ltokens = []\<rparr>"

definition Lexer_advance :: "Lexer \<Rightarrow> Lexer" where
  "Lexer_advance l =
     (if lpos l < length (input l) then
        (if input l ! lpos l = CHR 0x0A
         then l\<lparr>line := line l + 1, column := 1, lpos := lpos l + 1\<rparr>
         else l\<lparr>column := column l + 1, lpos := lpos l + 1\<rparr>)
      else l)"

definition Lexer_peek :: "Lexer \<Rightarrow> char" where
  "Lexer_peek l = (if lpos l + 1 < length (input l) then input l ! (lpos l + 1) else CHR 0x00)"

definition addToken :: "Lexer \<Rightarrow> TokenType \<Rightarrow> string \<Rightarrow> Lexer" where
  "addToken l tokenType val =
     l\<lparr>ltokens := ltokens l @
          [\<lparr>tType = tokenType, tValue = val, tLine = line l, tColumn = column l\<rparr>]\<rparr>"

lemma Lexer_advance_input [simp]: "input (Lexer_advance l) = input l"
  by (simp add: Lexer_advance_def)

lemma Lexer_advance_pos:
  "lpos (Lexer_advance l) = (if lpos l < length (input l) then Suc (lpos l) else lpos l)"
  by (simp add: Lexer_advance_def)

function skipLineComment :: "Lexer \<Rightarrow> Lexer" where
  "skipLineComment l =
     (if lpos l < length (input l) \<and> input l ! lpos l \<noteq> CHR 0x0A
      then skipLineComment (Lexer_advance l) else l)"
  by pat_completeness auto
termination
  by (relation "measure (\<lambda>l. length (input l) - lpos l)") (auto simp: Lexer_advance_pos)

text \<open>
  The inner loop of the block comment. Its condition is \<open>l.pos < len(l.input)-1\<close>, in
  integers.
\<close>

function skipBlockComment :: "Lexer \<Rightarrow> Lexer" where
  "skipBlockComment l =
     (if int (lpos l) < int (length (input l)) - 1 then
        (if input l ! lpos l = CHR ''*'' \<and> Lexer_peek l = CHR ''/''
         then Lexer_advance (Lexer_advance l)
         else skipBlockComment (Lexer_advance l))
      else l)"
  by pat_completeness auto
termination
  by (relation "measure (\<lambda>l. length (input l) - lpos l)") (auto simp: Lexer_advance_pos)

declare skipLineComment.simps [simp del] skipBlockComment.simps [simp del]

lemma skipLineComment_frame:
  "input (skipLineComment l) = input l \<and> lpos l \<le> lpos (skipLineComment l)"
proof (induction l rule: skipLineComment.induct)
  case (1 l)
  show ?case
  proof (cases "lpos l < length (input l) \<and> input l ! lpos l \<noteq> CHR 0x0A")
    case True
    then have "skipLineComment l = skipLineComment (Lexer_advance l)"
      by (subst skipLineComment.simps) simp
    with "1.IH" True show ?thesis by (simp add: Lexer_advance_pos)
  next
    case False
    then have "skipLineComment l = l"
      by (subst skipLineComment.simps) auto
    then show ?thesis by simp
  qed
qed

lemma skipBlockComment_frame:
  "input (skipBlockComment l) = input l \<and> lpos l \<le> lpos (skipBlockComment l)"
proof (induction l rule: skipBlockComment.induct)
  case (1 l)
  show ?case
  proof (cases "int (lpos l) < int (length (input l)) - 1")
    case True
    show ?thesis
    proof (cases "input l ! lpos l = CHR ''*'' \<and> Lexer_peek l = CHR ''/''")
      case star: True
      with True have "skipBlockComment l = Lexer_advance (Lexer_advance l)"
        by (subst skipBlockComment.simps) simp
      then show ?thesis by (simp add: Lexer_advance_pos)
    next
      case False
      with True have "skipBlockComment l = skipBlockComment (Lexer_advance l)"
        by (subst skipBlockComment.simps) auto
      with "1.IH" [OF True False] True show ?thesis by (simp add: Lexer_advance_pos)
    qed
  next
    case False
    then have "skipBlockComment l = l"
      by (subst skipBlockComment.simps) simp
    then show ?thesis by simp
  qed
qed

function skipWhitespaceAndComments :: "Lexer \<Rightarrow> Lexer" where
  "skipWhitespaceAndComments l =
     (if lpos l < length (input l) then
        (let ch = input l ! lpos l in
         if ch = CHR '' '' \<or> ch = CHR 0x09 \<or> ch = CHR 0x0D \<or> ch = CHR 0x0A then
           skipWhitespaceAndComments (Lexer_advance l)
         else if ch = CHR ''/'' \<and> Lexer_peek l = CHR ''/'' then
           skipWhitespaceAndComments (skipLineComment l)
         else if ch = CHR ''/'' \<and> Lexer_peek l = CHR ''*'' then
           skipWhitespaceAndComments (skipBlockComment (Lexer_advance (Lexer_advance l)))
         else l)
      else l)"
  by pat_completeness auto
termination
proof (relation "measure (\<lambda>l. length (input l) - lpos l)", goal_cases)
  case 1
  then show ?case by simp
next
  case (2 l ch)
  then show ?case by (simp add: Lexer_advance_pos)
next
  case (3 l ch)
  then have "lpos l < lpos (skipLineComment l)"
    using skipLineComment_frame [of "Lexer_advance l"]
    by (subst skipLineComment.simps) (simp add: Lexer_advance_pos)
  then show ?case
    using 3 skipLineComment_frame [of l] by simp
next
  case (4 l ch)
  have "lpos l < lpos (skipBlockComment (Lexer_advance (Lexer_advance l)))"
    using 4 skipBlockComment_frame [of "Lexer_advance (Lexer_advance l)"]
    by (simp add: Lexer_advance_pos split: if_splits)
  then show ?case
    using 4 skipBlockComment_frame [of "Lexer_advance (Lexer_advance l)"] by simp
qed

declare skipWhitespaceAndComments.simps [simp del]

lemma skipWhitespaceAndComments_frame:
  "input (skipWhitespaceAndComments l) = input l \<and> lpos l \<le> lpos (skipWhitespaceAndComments l)"
proof (induction l rule: skipWhitespaceAndComments.induct)
  case (1 l)
  let ?ch = "input l ! lpos l"
  consider (stop) "\<not> lpos l < length (input l)"
    | (ws) "lpos l < length (input l)"
        "?ch = CHR '' '' \<or> ?ch = CHR 0x09 \<or> ?ch = CHR 0x0D \<or> ?ch = CHR 0x0A"
    | (line) "lpos l < length (input l)"
        "\<not> (?ch = CHR '' '' \<or> ?ch = CHR 0x09 \<or> ?ch = CHR 0x0D \<or> ?ch = CHR 0x0A)"
        "?ch = CHR ''/'' \<and> Lexer_peek l = CHR ''/''"
    | (block) "lpos l < length (input l)"
        "\<not> (?ch = CHR '' '' \<or> ?ch = CHR 0x09 \<or> ?ch = CHR 0x0D \<or> ?ch = CHR 0x0A)"
        "\<not> (?ch = CHR ''/'' \<and> Lexer_peek l = CHR ''/'')"
        "?ch = CHR ''/'' \<and> Lexer_peek l = CHR ''*''"
    | (other) "lpos l < length (input l)"
        "\<not> (?ch = CHR '' '' \<or> ?ch = CHR 0x09 \<or> ?ch = CHR 0x0D \<or> ?ch = CHR 0x0A)"
        "\<not> (?ch = CHR ''/'' \<and> Lexer_peek l = CHR ''/'')"
        "\<not> (?ch = CHR ''/'' \<and> Lexer_peek l = CHR ''*'')"
    by blast
  then show ?case
  proof cases
    case stop
    then have "skipWhitespaceAndComments l = l"
      by (subst skipWhitespaceAndComments.simps) simp
    then show ?thesis by simp
  next
    case ws
    then have "skipWhitespaceAndComments l = skipWhitespaceAndComments (Lexer_advance l)"
      by (subst skipWhitespaceAndComments.simps) (simp add: Let_def)
    with "1.IH"(1) [OF ws(1) refl ws(2)] ws(1) show ?thesis by (simp add: Lexer_advance_pos)
  next
    case line
    then have "skipWhitespaceAndComments l = skipWhitespaceAndComments (skipLineComment l)"
      by (subst skipWhitespaceAndComments.simps) (simp add: Let_def)
    with "1.IH"(2) [OF line(1) refl line(2) line(3)] skipLineComment_frame [of l]
    show ?thesis by simp
  next
    case block
    then have "skipWhitespaceAndComments l
        = skipWhitespaceAndComments (skipBlockComment (Lexer_advance (Lexer_advance l)))"
      by (subst skipWhitespaceAndComments.simps) (simp add: Let_def)
    with "1.IH"(3) [OF block(1) refl block(2) block(3) block(4)]
      skipBlockComment_frame [of "Lexer_advance (Lexer_advance l)"]
    show ?thesis by (simp add: Lexer_advance_pos split: if_splits)
  next
    case other
    then have "skipWhitespaceAndComments l = l"
      by (subst skipWhitespaceAndComments.simps) (auto simp: Let_def)
    then show ?thesis by simp
  qed
qed

function skipPreprocessor :: "Lexer \<Rightarrow> Lexer" where
  "skipPreprocessor l =
     (if lpos l < length (input l) \<and> input l ! lpos l \<noteq> CHR 0x0A then
        (if input l ! lpos l = CHR 0x5C \<and> Lexer_peek l = CHR 0x0A
         then skipPreprocessor (Lexer_advance (Lexer_advance l))
         else skipPreprocessor (Lexer_advance l))
      else l)"
  by pat_completeness auto
termination
  by (relation "measure (\<lambda>l. length (input l) - lpos l)") (auto simp: Lexer_advance_pos)

text \<open>
  \<open>readString\<close>: the loop carries the lexer and the string builder \<open>sb\<close>.
\<close>

function readStringLoop :: "char \<Rightarrow> Lexer \<Rightarrow> string \<Rightarrow> Lexer \<times> string" where
  "readStringLoop quote l sb =
     (if lpos l < length (input l) then
        (let ch = input l ! lpos l in
         if ch = CHR 0x5C \<and> lpos l + 1 < length (input l) then
           (let l1 = Lexer_advance l in
            if lpos l1 < length (input l1)
            then readStringLoop quote (Lexer_advance l1) (sb @ [ch] @ [input l1 ! lpos l1])
            else readStringLoop quote l1 (sb @ [ch]))
         else if ch = quote then (Lexer_advance l, sb @ [ch])
         else if ch = CHR 0x0A then (l, sb)
         else readStringLoop quote (Lexer_advance l) (sb @ [ch]))
      else (l, sb))"
  by pat_completeness auto
termination
  by (relation "measure (\<lambda>(quote, l, sb). length (input l) - lpos l)")
     (auto simp: Lexer_advance_pos)

definition readString :: "char \<Rightarrow> Lexer \<Rightarrow> Lexer" where
  "readString quote l =
     (let startLine = line l; startCol = column l;
          r = readStringLoop quote (Lexer_advance l) [quote];
          l1 = fst r
      in l1\<lparr>ltokens := ltokens l1 @
            [\<lparr>tType = TokenString, tValue = snd r, tLine = startLine, tColumn = startCol\<rparr>]\<rparr>)"

function readIdentifierLoop :: "Lexer \<Rightarrow> Lexer" where
  "readIdentifierLoop l =
     (if lpos l < length (input l) \<and>
         (isLetter (input l ! lpos l) \<or> isDigit (input l ! lpos l) \<or> input l ! lpos l = CHR ''_'')
      then readIdentifierLoop (Lexer_advance l) else l)"
  by pat_completeness auto
termination
  by (relation "measure (\<lambda>l. length (input l) - lpos l)") (auto simp: Lexer_advance_pos)

text \<open>The Go slice expression \<open>s[i:j]\<close>.\<close>

definition substring :: "string \<Rightarrow> nat \<Rightarrow> nat \<Rightarrow> string" where
  "substring s i j = take (j - i) (drop i s)"

definition readIdentifier :: "Lexer \<Rightarrow> Lexer" where
  "readIdentifier l =
     (let startLine = line l; startCol = column l; start = lpos l;
          l1 = readIdentifierLoop l;
          val = substring (input l1) start (lpos l1);
          tokenType = (if isKeyword val then TokenKeyword else TokenIdent)
      in l1\<lparr>ltokens := ltokens l1 @
            [\<lparr>tType = tokenType, tValue = val, tLine = startLine, tColumn = startCol\<rparr>]\<rparr>)"

text \<open>Comparison of bytes, as in \<open>ch >= 'a' && ch <= 'f'\<close>.\<close>

definition byteBetween :: "char \<Rightarrow> char \<Rightarrow> char \<Rightarrow> bool" where
  "byteBetween lo ch hi \<longleftrightarrow> (of_char lo :: nat) \<le> of_char ch \<and> (of_char ch :: nat) \<le> of_char hi"

function readNumberLoop :: "Lexer \<Rightarrow> Lexer" where
  "readNumberLoop l =
     (if lpos l < length (input l) \<and>
         (let ch = input l ! lpos l in
          isDigit ch \<or> ch = CHR ''.'' \<or> ch = CHR ''x'' \<or> ch = CHR ''X'' \<or>
          byteBetween (CHR ''a'') ch (CHR ''f'') \<or> byteBetween (CHR ''A'') ch (CHR ''F''))
      then readNumberLoop (Lexer_advance l) else l)"
  by pat_completeness auto
termination
  by (relation "measure (\<lambda>l. length (input l) - lpos l)") (auto simp: Lexer_advance_pos)

declare skipPreprocessor.simps [simp del] readStringLoop.simps [simp del]
  readIdentifierLoop.simps [simp del] readNumberLoop.simps [simp del]

definition readNumber :: "Lexer \<Rightarrow> Lexer" where
  "readNumber l =
     (let startLine = line l; startCol = column l; start = lpos l;
          l1 = readNumberLoop l
      in l1\<lparr>ltokens := ltokens l1 @
            [\<lparr>tType = TokenNumber, tValue = substring (input l1) start (lpos l1),
              tLine = startLine, tColumn = startCol\<rparr>]\<rparr>)"

definition isOperator :: "char \<Rightarrow> bool" where
  "isOperator ch \<longleftrightarrow>
     ch = CHR ''+'' \<or> ch = CHR ''-'' \<or> ch = CHR ''*'' \<or> ch = CHR ''/'' \<or> ch = CHR ''='' \<or>
     ch = CHR ''<'' \<or> ch = CHR ''>'' \<or> ch = CHR ''!'' \<or> ch = CHR ''&'' \<or> ch = CHR ''|'' \<or>
     ch = CHR ''^'' \<or> ch = CHR ''%'' \<or> ch = CHR ''~''"

definition readOperator :: "Lexer \<Rightarrow> Lexer" where
  "readOperator l =
     (let startLine = line l; startCol = column l; start = lpos l;
          two = substring (input l) (lpos l) (lpos l + 2)
      in if lpos l + 1 < length (input l) \<and>
            two \<in> set [''::'', ''->'', ''=='', ''!='', ''<='', ''>='', ''&&'', ''||'',
                        ''++'', ''--'', ''+='', ''-='', ''*='', ''/='']
         then (let l1 = Lexer_advance (Lexer_advance l)
               in l1\<lparr>ltokens := ltokens l1 @
                     [\<lparr>tType = TokenOperator, tValue = two, tLine = startLine,
                       tColumn = startCol\<rparr>]\<rparr>)
         else (let l1 = Lexer_advance l
               in l1\<lparr>ltokens := ltokens l1 @
                     [\<lparr>tType = TokenOperator, tValue = substring (input l1) start (lpos l1),
                       tLine = startLine, tColumn = startCol\<rparr>]\<rparr>))"

definition isPunctuation :: "char \<Rightarrow> bool" where
  "isPunctuation ch \<longleftrightarrow>
     ch = CHR ''{'' \<or> ch = CHR ''}'' \<or> ch = CHR ''('' \<or> ch = CHR '')'' \<or>
     ch = CHR ''['' \<or> ch = CHR '']'' \<or> ch = CHR '';'' \<or> ch = CHR '','' \<or>
     ch = CHR '':'' \<or> ch = CHR ''.''"

text \<open>
  One turn of the loop of \<open>Tokenize\<close> after the whitespace has been skipped: the test
  for \<open>::\<close> and the \<open>switch\<close>. It is entered with \<open>l.pos < len(l.input)\<close>.
\<close>

definition scanToken :: "Lexer \<Rightarrow> Lexer" where
  "scanToken l =
     (let ch = input l ! lpos l in
      if ch = CHR '':'' \<and> Lexer_peek l = CHR '':'' then
        Lexer_advance (Lexer_advance (addToken l TokenOperator ''::''))
      else if ch = CHR 0x22 \<or> ch = CHR 0x27 then readString ch l
      else if ch = CHR ''#'' then skipPreprocessor l
      else if isLetter ch \<or> ch = CHR ''_'' then readIdentifier l
      else if isDigit ch then readNumber l
      else if isOperator ch then readOperator l
      else if isPunctuation ch then Lexer_advance (addToken l TokenPunctuation [ch])
      else Lexer_advance l)"

lemma addToken_frame [simp]:
  "input (addToken l ty v) = input l" "lpos (addToken l ty v) = lpos l"
  by (simp_all add: addToken_def)

lemma skipPreprocessor_frame:
  "input (skipPreprocessor l) = input l \<and> lpos l \<le> lpos (skipPreprocessor l)"
proof (induction l rule: skipPreprocessor.induct)
  case (1 l)
  show ?case
  proof (cases "lpos l < length (input l) \<and> input l ! lpos l \<noteq> CHR 0x0A")
    case True
    show ?thesis
    proof (cases "input l ! lpos l = CHR 0x5C \<and> Lexer_peek l = CHR 0x0A")
      case cont: True
      with True have "skipPreprocessor l = skipPreprocessor (Lexer_advance (Lexer_advance l))"
        by (subst skipPreprocessor.simps) simp
      with "1.IH"(1) [OF True cont] True show ?thesis
        by (simp add: Lexer_advance_pos split: if_splits)
    next
      case False
      with True have "skipPreprocessor l = skipPreprocessor (Lexer_advance l)"
        by (subst skipPreprocessor.simps) auto
      with "1.IH"(2) [OF True False] True show ?thesis by (simp add: Lexer_advance_pos)
    qed
  next
    case False
    then have "skipPreprocessor l = l" by (subst skipPreprocessor.simps) auto
    then show ?thesis by simp
  qed
qed

lemma skipPreprocessor_strict:
  assumes "lpos l < length (input l)" "input l ! lpos l \<noteq> CHR 0x0A"
  shows "lpos l < lpos (skipPreprocessor l)"
proof (cases "input l ! lpos l = CHR 0x5C \<and> Lexer_peek l = CHR 0x0A")
  case True
  with assms have "skipPreprocessor l = skipPreprocessor (Lexer_advance (Lexer_advance l))"
    by (subst skipPreprocessor.simps) simp
  with skipPreprocessor_frame [of "Lexer_advance (Lexer_advance l)"] assms show ?thesis
    by (simp add: Lexer_advance_pos split: if_splits)
next
  case False
  with assms have "skipPreprocessor l = skipPreprocessor (Lexer_advance l)"
    by (subst skipPreprocessor.simps) auto
  with skipPreprocessor_frame [of "Lexer_advance l"] assms show ?thesis
    by (simp add: Lexer_advance_pos)
qed

lemma readStringLoop_frame:
  "input (fst (readStringLoop q l sb)) = input l \<and> lpos l \<le> lpos (fst (readStringLoop q l sb))"
proof (induction q l sb rule: readStringLoop.induct)
  case (1 quote l sb)
  let ?ch = "input l ! lpos l"
  let ?l1 = "Lexer_advance l"
  consider (stop) "\<not> lpos l < length (input l)"
    | (esc2) "lpos l < length (input l)" "?ch = CHR 0x5C \<and> lpos l + 1 < length (input l)"
        "lpos ?l1 < length (input ?l1)"
    | (esc1) "lpos l < length (input l)" "?ch = CHR 0x5C \<and> lpos l + 1 < length (input l)"
        "\<not> lpos ?l1 < length (input ?l1)"
    | (quote) "lpos l < length (input l)" "\<not> (?ch = CHR 0x5C \<and> lpos l + 1 < length (input l))"
        "?ch = quote"
    | (nl) "lpos l < length (input l)" "\<not> (?ch = CHR 0x5C \<and> lpos l + 1 < length (input l))"
        "?ch \<noteq> quote" "?ch = CHR 0x0A"
    | (other) "lpos l < length (input l)" "\<not> (?ch = CHR 0x5C \<and> lpos l + 1 < length (input l))"
        "?ch \<noteq> quote" "?ch \<noteq> CHR 0x0A"
    by blast
  then show ?case
  proof cases
    case stop
    then have "readStringLoop quote l sb = (l, sb)"
      by (subst readStringLoop.simps) simp
    then show ?thesis by simp
  next
    case esc2
    then have "readStringLoop quote l sb
        = readStringLoop quote (Lexer_advance ?l1) (sb @ [?ch] @ [input ?l1 ! lpos ?l1])"
      by (subst readStringLoop.simps) (simp add: Let_def)
    with "1.IH"(1) [OF esc2(1) refl esc2(2) refl esc2(3)] esc2 show ?thesis
      by (simp add: Lexer_advance_pos)
  next
    case esc1
    then have "readStringLoop quote l sb = readStringLoop quote ?l1 (sb @ [?ch])"
      by (subst readStringLoop.simps) (simp add: Let_def)
    with "1.IH"(2) [OF esc1(1) refl esc1(2) refl esc1(3)] esc1 show ?thesis
      by (simp add: Lexer_advance_pos)
  next
    case quote
    then have "readStringLoop quote l sb = (Lexer_advance l, sb @ [?ch])"
      by (subst readStringLoop.simps) (auto simp: Let_def)
    then show ?thesis by (simp add: Lexer_advance_pos)
  next
    case nl
    then have "readStringLoop quote l sb = (l, sb)"
      by (subst readStringLoop.simps) (auto simp: Let_def)
    then show ?thesis by simp
  next
    case other
    then have "readStringLoop quote l sb = readStringLoop quote ?l1 (sb @ [?ch])"
      by (subst readStringLoop.simps) (auto simp: Let_def)
    with "1.IH"(3) [OF other(1) refl other(2) other(3) other(4)] other show ?thesis
      by (simp add: Lexer_advance_pos)
  qed
qed

lemma readString_frame:
  "input (readString q l) = input l"
  "lpos l < length (input l) \<Longrightarrow> lpos l < lpos (readString q l)"
  using readStringLoop_frame [of q "Lexer_advance l" "[q]"]
  by (simp_all add: readString_def Let_def Lexer_advance_pos)

lemma readIdentifierLoop_frame:
  "input (readIdentifierLoop l) = input l \<and> lpos l \<le> lpos (readIdentifierLoop l)"
proof (induction l rule: readIdentifierLoop.induct)
  case (1 l)
  show ?case
  proof (cases "lpos l < length (input l) \<and>
         (isLetter (input l ! lpos l) \<or> isDigit (input l ! lpos l) \<or> input l ! lpos l = CHR ''_'')")
    case True
    then have "readIdentifierLoop l = readIdentifierLoop (Lexer_advance l)"
      by (subst readIdentifierLoop.simps) simp
    with "1.IH" [OF True] True show ?thesis by (simp add: Lexer_advance_pos)
  next
    case False
    then have "readIdentifierLoop l = l" by (subst readIdentifierLoop.simps) auto
    then show ?thesis by simp
  qed
qed

lemma readIdentifier_frame:
  "input (readIdentifier l) = input l"
  "lpos l < length (input l) \<Longrightarrow> isLetter (input l ! lpos l) \<or> input l ! lpos l = CHR ''_''
     \<Longrightarrow> lpos l < lpos (readIdentifier l)"
proof -
  show "input (readIdentifier l) = input l"
    using readIdentifierLoop_frame [of l] by (simp add: readIdentifier_def Let_def)
  assume a: "lpos l < length (input l)" "isLetter (input l ! lpos l) \<or> input l ! lpos l = CHR ''_''"
  then have "readIdentifierLoop l = readIdentifierLoop (Lexer_advance l)"
    by (subst readIdentifierLoop.simps) auto
  with readIdentifierLoop_frame [of "Lexer_advance l"] a
  show "lpos l < lpos (readIdentifier l)"
    by (simp add: readIdentifier_def Let_def Lexer_advance_pos)
qed

lemma readNumberLoop_frame:
  "input (readNumberLoop l) = input l \<and> lpos l \<le> lpos (readNumberLoop l)"
proof (induction l rule: readNumberLoop.induct)
  case (1 l)
  let ?c = "lpos l < length (input l) \<and>
         (let ch = input l ! lpos l in
          isDigit ch \<or> ch = CHR ''.'' \<or> ch = CHR ''x'' \<or> ch = CHR ''X'' \<or>
          byteBetween (CHR ''a'') ch (CHR ''f'') \<or> byteBetween (CHR ''A'') ch (CHR ''F''))"
  show ?case
  proof (cases ?c)
    case True
    then have "readNumberLoop l = readNumberLoop (Lexer_advance l)"
      by (subst readNumberLoop.simps) simp
    with "1.IH" [OF True] True show ?thesis by (simp add: Lexer_advance_pos)
  next
    case False
    then have "readNumberLoop l = l" by (subst readNumberLoop.simps) auto
    then show ?thesis by simp
  qed
qed

lemma readNumber_frame:
  "input (readNumber l) = input l"
  "lpos l < length (input l) \<Longrightarrow> isDigit (input l ! lpos l) \<Longrightarrow> lpos l < lpos (readNumber l)"
proof -
  show "input (readNumber l) = input l"
    using readNumberLoop_frame [of l] by (simp add: readNumber_def Let_def)
  assume a: "lpos l < length (input l)" "isDigit (input l ! lpos l)"
  then have "readNumberLoop l = readNumberLoop (Lexer_advance l)"
    by (subst readNumberLoop.simps) (auto simp: Let_def)
  with readNumberLoop_frame [of "Lexer_advance l"] a
  show "lpos l < lpos (readNumber l)"
    by (simp add: readNumber_def Let_def Lexer_advance_pos)
qed

lemma readOperator_frame:
  "input (readOperator l) = input l"
  "lpos l < length (input l) \<Longrightarrow> lpos l < lpos (readOperator l)"
  by (simp_all add: readOperator_def Let_def Lexer_advance_pos)

lemma scanToken_frame:
  "input (scanToken l) = input l"
  "lpos l < length (input l) \<Longrightarrow> lpos l < lpos (scanToken l)"
proof -
  show "input (scanToken l) = input l"
    using skipPreprocessor_frame [of l]
    by (simp add: scanToken_def Let_def readString_frame readIdentifier_frame readNumber_frame
          readOperator_frame)
  assume a: "lpos l < length (input l)"
  show "lpos l < lpos (scanToken l)"
    unfolding scanToken_def Let_def
    using a skipPreprocessor_strict [of l] readString_frame(2) [of l]
      readIdentifier_frame(2) [of l] readNumber_frame(2) [of l] readOperator_frame(2) [of l]
    by (auto simp: Lexer_advance_pos)
qed

function tokenizeLoop :: "Lexer \<Rightarrow> Lexer" where
  "tokenizeLoop l =
     (if lpos l < length (input l) then
        (let l1 = skipWhitespaceAndComments l in
         if lpos l1 \<ge> length (input l1) then l1
         else tokenizeLoop (scanToken l1))
      else l)"
  by pat_completeness auto
termination
proof (relation "measure (\<lambda>l. length (input l) - lpos l)", goal_cases)
  case 1
  then show ?case by simp
next
  case (2 l l1)
  then show ?case
    using skipWhitespaceAndComments_frame [of l] scanToken_frame [of l1] by simp linarith
qed

definition Tokenize :: "Lexer \<Rightarrow> Token list" where
  "Tokenize l =
     (let l1 = tokenizeLoop l
      in ltokens l1 @ [\<lparr>tType = TokenEOF, tValue = [], tLine = line l1, tColumn = column l1\<rparr>])"

declare tokenizeLoop.simps [simp del]

section \<open>Parser (package parser, parser.go): classes, members and functions\<close>

record Parser =
  tokens :: "Token list"
  pos :: nat
  pfile :: string
  classes :: "Class list"

definition current :: "Parser \<Rightarrow> Token" where
  "current p =
     (if pos p < length (tokens p) then tokens p ! pos p
      else \<lparr>tType = TokenEOF, tValue = [], tLine = 0, tColumn = 0\<rparr>)"

definition Parser_advance :: "Parser \<Rightarrow> Parser" where
  "Parser_advance p = (if pos p < length (tokens p) then p\<lparr>pos := pos p + 1\<rparr> else p)"

definition isAtEnd :: "Parser \<Rightarrow> bool" where
  "isAtEnd p \<longleftrightarrow> pos p \<ge> length (tokens p) \<or> tType (tokens p ! pos p) = TokenEOF"


definition checkValue :: "Parser \<Rightarrow> string \<Rightarrow> bool" where
  "checkValue p v \<longleftrightarrow> \<not> isAtEnd p \<and> tValue (current p) = v"


text \<open>\<open>matchValue\<close> advances on a match; the model returns the parser only, the callers
  that need the result test \<open>checkValue\<close> first.\<close>

definition matchValue :: "Parser \<Rightarrow> string \<Rightarrow> Parser" where
  "matchValue p v = (if checkValue p v then Parser_advance p else p)"

lemma Parser_advance_tokens [simp]: "tokens (Parser_advance p) = tokens p"
  by (simp add: Parser_advance_def)

lemma Parser_advance_pos:
  "pos (Parser_advance p) = (if pos p < length (tokens p) then Suc (pos p) else pos p)"
  by (simp add: Parser_advance_def)



lemma matchValue_frame [simp]: "tokens (matchValue p v) = tokens p"
  by (simp add: matchValue_def)


text \<open>\<open>findAssignmentTarget\<close>: two loops that count down, over integer indices.\<close>

function findTargetInner :: "Parser \<Rightarrow> int \<Rightarrow> int \<Rightarrow> string option" where
  "findTargetInner p i j =
     (if j \<ge> 0 \<and> j > i - 5 then
        (if tType (tokens p ! nat j) = TokenIdent \<and> tValue (tokens p ! nat j) \<noteq> ''this''
         then Some (tValue (tokens p ! nat j))
         else findTargetInner p i (j - 1))
      else None)"
  by pat_completeness auto
termination
  by (relation "measure (\<lambda>(p, i, j). nat (j + 1))") auto

function findTargetOuter :: "Parser \<Rightarrow> int \<Rightarrow> string" where
  "findTargetOuter p i =
     (if i \<ge> 0 \<and> i > int (pos p) - 10 then
        (if tValue (tokens p ! nat i) = ''='' then
           (case findTargetInner p i (i - 1) of
              Some v \<Rightarrow> v
            | None \<Rightarrow> findTargetOuter p (i - 1))
         else findTargetOuter p (i - 1))
      else [])"
  by pat_completeness auto
termination
  by (relation "measure (\<lambda>(p, i). nat (i + 1))") auto


function skipToStatementEnd :: "Parser \<Rightarrow> bool \<Rightarrow> Parser \<times> bool" where
  "skipToStatementEnd p isArray =
     (if \<not> isAtEnd p \<and> \<not> checkValue p '';'' \<and> \<not> checkValue p ''{''
      then skipToStatementEnd (Parser_advance p) (if checkValue p ''['' then True else isArray)
      else (p, isArray))"
  by pat_completeness auto
termination
  by (relation "measure (\<lambda>(p, isArray). length (tokens p) - pos p)")
     (auto simp: Parser_advance_pos isAtEnd_def)

declare findTargetInner.simps [simp del] findTargetOuter.simps [simp del]
  skipToStatementEnd.simps [simp del]


























































section \<open>Example classes\<close>

text \<open>
  Classes as the parser records them, most of them from the repository's test data
  (\<open>testdata/edge_cases.cpp\<close>); the theorems below are applied to them.
\<close>

definition func :: "string \<Rightarrow> Function" where
  "func n = \<lparr>fName = n, IsDestructor = False, fStartLine = 0, fEndLine = 0, Allocations = [],
             Deallocations = [], MethodCalls = [], Aliases = []\<rparr>"

definition exAliasChain :: Class where
  "exAliasChain =
     \<lparr>cName = ''C'', cFile = ''c.cpp'', cStartLine = 1, cEndLine = 9,
      Members = [\<lparr>mName = ''x'', mType = ''int'', mIsPointer = True, mIsArray = False, mLine = 2\<rparr>],
      Constructor = Some ((func ''C'')
        \<lparr>Allocations := [\<lparr>aVarName = ''x'', aIsArray = False, aLine = 4\<rparr>],
         Aliases := [\<lparr>SourceVar = ''x'', TargetVar = ''y'', pLine = 5\<rparr>,
                     \<lparr>SourceVar = ''y'', TargetVar = ''z'', pLine = 6\<rparr>]\<rparr>),
      Destructor = Some ((func ''~C'')
        \<lparr>IsDestructor := True,
         Deallocations := [\<lparr>dVarName = ''z'', dIsArray = False, dLine = 8\<rparr>]\<rparr>),
      Methods = []\<rparr>"

definition exAliasDirect :: Class where
  "exAliasDirect =
     \<lparr>cName = ''C'', cFile = ''c.cpp'', cStartLine = 1, cEndLine = 9,
      Members = [\<lparr>mName = ''x'', mType = ''int'', mIsPointer = True, mIsArray = False, mLine = 2\<rparr>],
      Constructor = Some ((func ''C'')
        \<lparr>Allocations := [\<lparr>aVarName = ''x'', aIsArray = False, aLine = 4\<rparr>],
         Aliases := [\<lparr>SourceVar = ''x'', TargetVar = ''y'', pLine = 5\<rparr>]\<rparr>),
      Destructor = Some ((func ''~C'')
        \<lparr>IsDestructor := True,
         Deallocations := [\<lparr>dVarName = ''y'', dIsArray = False, dLine = 8\<rparr>]\<rparr>),
      Methods = []\<rparr>"

text \<open>
  A constructor with \<open>x = new int;\<close>, a method with \<open>x = y;\<close> (the record has \<open>y\<close> as
  source and \<open>x\<close> as target) and a destructor with \<open>delete y;\<close>.
\<close>

definition exAliasReverse :: Class where
  "exAliasReverse =
     \<lparr>cName = ''C'', cFile = ''c.cpp'', cStartLine = 1, cEndLine = 9,
      Members = [\<lparr>mName = ''x'', mType = ''int'', mIsPointer = True, mIsArray = False, mLine = 2\<rparr>],
      Constructor = Some ((func ''C'')
        \<lparr>Allocations := [\<lparr>aVarName = ''x'', aIsArray = False, aLine = 4\<rparr>]\<rparr>),
      Destructor = Some ((func ''~C'')
        \<lparr>IsDestructor := True,
         Deallocations := [\<lparr>dVarName = ''y'', dIsArray = False, dLine = 8\<rparr>]\<rparr>),
      Methods = [(func ''rebind'')
        \<lparr>Aliases := [\<lparr>SourceVar = ''y'', TargetVar = ''x'', pLine = 6\<rparr>]\<rparr>]\<rparr>"

definition ptrMember :: "string \<Rightarrow> int \<Rightarrow> Member" where
  "ptrMember n ln = \<lparr>mName = n, mType = ''int'', mIsPointer = True, mIsArray = False, mLine = ln\<rparr>"

definition exBasicLeak :: Class where
  "exBasicLeak =
     \<lparr>cName = ''BasicLeak'', cFile = ''edge_cases.cpp'', cStartLine = 6, cEndLine = 13,
      Members = [ptrMember ''ptr'' 8],
      Constructor = Some ((func ''BasicLeak'')
        \<lparr>fStartLine := 11, fEndLine := 11,
         Allocations := [\<lparr>aVarName = ''ptr'', aIsArray = False, aLine = 11\<rparr>]\<rparr>),
      Destructor = Some ((func ''~BasicLeak'')
        \<lparr>IsDestructor := True, fStartLine := 12, fEndLine := 12\<rparr>),
      Methods = []\<rparr>"


definition exReassign :: Function where
  "exReassign = (func ''reassign'')
     \<lparr>fStartLine := 132, fEndLine := 135,
      Allocations := [\<lparr>aVarName = ''ptr'', aIsArray = False, aLine = 134\<rparr>],
      Deallocations := [\<lparr>dVarName = ''ptr'', dIsArray = False, dLine = 133\<rparr>]\<rparr>"

definition exProperReassignment :: Class where
  "exProperReassignment =
     \<lparr>cName = ''ProperReassignment'', cFile = ''edge_cases.cpp'', cStartLine = 126, cEndLine = 137,
      Members = [ptrMember ''ptr'' 128],
      Constructor = Some ((func ''ProperReassignment'')
        \<lparr>fStartLine := 131, fEndLine := 131,
         Allocations := [\<lparr>aVarName = ''ptr'', aIsArray = False, aLine = 131\<rparr>]\<rparr>),
      Destructor = Some ((func ''~ProperReassignment'')
        \<lparr>IsDestructor := True, fStartLine := 136, fEndLine := 136,
         Deallocations := [\<lparr>dVarName = ''ptr'', dIsArray = False, dLine = 136\<rparr>]\<rparr>),
      Methods = [exReassign]\<rparr>"

definition exBadFunction :: Function where
  "exBadFunction = (func ''badFunction'')
     \<lparr>fStartLine := 160, fEndLine := 164,
      Deallocations := [\<lparr>dVarName = ''alias'', dIsArray = False, dLine = 162\<rparr>,
                        \<lparr>dVarName = ''original'', dIsArray = False, dLine = 163\<rparr>],
      Aliases := [\<lparr>SourceVar = ''original'', TargetVar = ''alias'', pLine = 161\<rparr>]\<rparr>"

definition exDoubleDelete :: Class where
  "exDoubleDelete =
     \<lparr>cName = ''DoubleDeleteViaAlias'', cFile = ''edge_cases.cpp'', cStartLine = 154, cEndLine = 166,
      Members = [ptrMember ''original'' 156],
      Constructor = Some ((func ''DoubleDeleteViaAlias'')
        \<lparr>fStartLine := 159, fEndLine := 159,
         Allocations := [\<lparr>aVarName = ''original'', aIsArray = False, aLine = 159\<rparr>]\<rparr>),
      Destructor = Some ((func ''~DoubleDeleteViaAlias'')
        \<lparr>IsDestructor := True, fStartLine := 165, fEndLine := 165,
         Deallocations := [\<lparr>dVarName = ''original'', dIsArray = False, dLine = 165\<rparr>]\<rparr>),
      Methods = [exBadFunction]\<rparr>"

definition exReassignBad :: Function where
  "exReassignBad = (func ''reassign'')
     \<lparr>fStartLine := 117, fEndLine := 119,
      Allocations := [\<lparr>aVarName = ''ptr'', aIsArray = False, aLine = 118\<rparr>]\<rparr>"

definition exReassignmentLeak :: Class where
  "exReassignmentLeak =
     \<lparr>cName = ''ReassignmentLeak'', cFile = ''edge_cases.cpp'', cStartLine = 111, cEndLine = 121,
      Members = [ptrMember ''ptr'' 113],
      Constructor = Some ((func ''ReassignmentLeak'')
        \<lparr>fStartLine := 116, fEndLine := 116,
         Allocations := [\<lparr>aVarName = ''ptr'', aIsArray = False, aLine = 116\<rparr>]\<rparr>),
      Destructor = Some ((func ''~ReassignmentLeak'')
        \<lparr>IsDestructor := True, fStartLine := 120, fEndLine := 120,
         Deallocations := [\<lparr>dVarName = ''ptr'', dIsArray = False, dLine = 120\<rparr>]\<rparr>),
      Methods = [exReassignBad]\<rparr>"

definition arrAlloc :: "string \<Rightarrow> int \<Rightarrow> Allocation" where
  "arrAlloc v ln = \<lparr>aVarName = v, aIsArray = True, aLine = ln\<rparr>"

definition arrDealloc :: "string \<Rightarrow> int \<Rightarrow> Deallocation" where
  "arrDealloc v ln = \<lparr>dVarName = v, dIsArray = True, dLine = ln\<rparr>"







text \<open>A chain of six levels counting the destructor: the delete is five calls away.\<close>

definition exLevel :: "string \<Rightarrow> string list \<Rightarrow> Function" where
  "exLevel n calls = (func n)\<lparr>MethodCalls := calls\<rparr>"







text \<open>
  A destructor defined out of the class is recorded under the class name, without the
  \<open>~\<close>; so is a constructor that \<open>isConstructorStart\<close> does not recognise (one declared
  \<open>explicit\<close>, say), as a method. Here the destructor calls that name.
\<close>

definition exClashMethod :: Function where
  "exClashMethod = (func ''W'')
     \<lparr>Deallocations := [\<lparr>dVarName = ''p'', dIsArray = False, dLine = 7\<rparr>]\<rparr>"

definition exClashDtor :: Function where
  "exClashDtor = (func ''W'')\<lparr>IsDestructor := True, fStartLine := 12, MethodCalls := [''W'']\<rparr>"

definition exNameClash :: Class where
  "exNameClash =
     \<lparr>cName = ''W'', cFile = ''w.cpp'', cStartLine = 1, cEndLine = 9,
      Members = [ptrMember ''p'' 2],
      Constructor = Some ((func ''W'')
        \<lparr>Allocations := [\<lparr>aVarName = ''p'', aIsArray = False, aLine = 4\<rparr>]\<rparr>),
      Destructor = Some exClashDtor,
      Methods = [exClashMethod]\<rparr>"

text \<open>
  A call graph with a cycle (\<open>a\<close> and \<open>b\<close> call each other, \<open>c\<close> calls back to \<open>a\<close>) and
  a diamond (\<open>a\<close> and \<open>b\<close> both call \<open>c\<close>).
\<close>

definition exCycA :: Function where
  "exCycA = (func ''a'')
     \<lparr>Deallocations := [\<lparr>dVarName = ''p'', dIsArray = False, dLine = 10\<rparr>],
      MethodCalls := [''c'', ''b'']\<rparr>"

definition exCycB :: Function where
  "exCycB = (func ''b'')
     \<lparr>Deallocations := [\<lparr>dVarName = ''q'', dIsArray = False, dLine = 14\<rparr>],
      MethodCalls := [''c'', ''a'']\<rparr>"

definition exCycC :: Function where
  "exCycC = (func ''c'')
     \<lparr>Deallocations := [\<lparr>dVarName = ''r'', dIsArray = False, dLine = 18\<rparr>],
      MethodCalls := [''a'']\<rparr>"

definition exCycDtor :: Function where
  "exCycDtor = (func ''~G'')\<lparr>IsDestructor := True, MethodCalls := [''a'', ''b'']\<rparr>"

definition exCyclic :: Class where
  "exCyclic =
     \<lparr>cName = ''G'', cFile = ''g.cpp'', cStartLine = 1, cEndLine = 30,
      Members = [ptrMember ''p'' 2, ptrMember ''q'' 3, ptrMember ''r'' 4],
      Constructor = Some ((func ''G'')
        \<lparr>Allocations := [\<lparr>aVarName = ''p'', aIsArray = False, aLine = 6\<rparr>,
                         \<lparr>aVarName = ''q'', aIsArray = False, aLine = 7\<rparr>,
                         \<lparr>aVarName = ''r'', aIsArray = False, aLine = 8\<rparr>]\<rparr>),
      Destructor = Some exCycDtor,
      Methods = [exCycA, exCycB, exCycC]\<rparr>"

text \<open>
  The two records of \<open>DataManager\<close> of the test data: the header declares the members,
  the implementation file defines constructor and destructor out of the class.
\<close>

definition exHeaderRecord :: Class where
  "exHeaderRecord =
     \<lparr>cName = ''DataManager'', cFile = ''/src/testdata/cross_file_test.h'',
      cStartLine = 6, cEndLine = 16,
      Members = [\<lparr>mName = ''buffer'', mType = ''int'', mIsPointer = True, mIsArray = False, mLine = 8\<rparr>,
                 \<lparr>mName = ''name'', mType = ''char'', mIsPointer = True, mIsArray = False, mLine = 9\<rparr>],
      Constructor = Some ((func ''DataManager'')\<lparr>fStartLine := 12\<rparr>),
      Destructor = Some ((func ''~DataManager'')\<lparr>IsDestructor := True, fStartLine := 13\<rparr>),
      Methods = []\<rparr>"

definition exImplRecord :: Class where
  "exImplRecord =
     \<lparr>cName = ''DataManager'', cFile = ''/src/testdata/cross_file_test.cpp'',
      cStartLine = 0, cEndLine = 0,
      Members = [],
      Constructor = Some ((func ''DataManager'')
        \<lparr>fStartLine := 5, fEndLine := 8,
         Allocations := [\<lparr>aVarName = ''buffer'', aIsArray = True, aLine = 6\<rparr>,
                         \<lparr>aVarName = ''name'', aIsArray = True, aLine = 7\<rparr>]\<rparr>),
      Destructor = Some ((func ''DataManager'')
        \<lparr>IsDestructor := True, fStartLine := 10, fEndLine := 13,
         Deallocations := [\<lparr>dVarName = ''buffer'', dIsArray = True, dLine = 11\<rparr>]\<rparr>),
      Methods = [(func ''processData'')\<lparr>fStartLine := 15, fEndLine := 17\<rparr>]\<rparr>"

text \<open>
  A class defined in an implementation file, with its pointer member, whose header only
  declares it without a pointer member the parser recognises.
\<close>

definition exImplWithMembers :: Class where
  "exImplWithMembers =
     \<lparr>cName = ''Impl'', cFile = ''/src/impl.cpp'', cStartLine = 3, cEndLine = 9,
      Members = [\<lparr>mName = ''p'', mType = ''int'', mIsPointer = True, mIsArray = False, mLine = 4\<rparr>],
      Constructor = None, Destructor = None, Methods = []\<rparr>"

definition exHeaderNoMembers :: Class where
  "exHeaderNoMembers =
     \<lparr>cName = ''Impl'', cFile = ''/src/impl.h'', cStartLine = 1, cEndLine = 4,
      Members = [], Constructor = None, Destructor = None, Methods = []\<rparr>"

text \<open>
  Three versions of one class, as source text: the destructor is declared as \<open>~Holder();\<close>,
  as \<open>virtual ~Holder() = 0;\<close> and as \<open>inline ~Holder();\<close>. \<open>parserAfterClass\<close> is the
  parser as \<open>parse\<close> hands it to \<open>parseClass\<close>: on the tokens of the lexer, behind the
  keyword \<open>class\<close>. The class records are what \<open>parseClass\<close> returns for them.
\<close>

abbreviation nl :: string where
  "nl \<equiv> [CHR 0x0A]"









section \<open>Properties of the analyzer\<close>

subsection \<open>The passes as concatenations\<close>

lemma appendEach_eq: "appendEach body xs leaks = leaks @ concat (map body xs)"
  unfolding appendEach_def by (induction xs arbitrary: leaks) simp_all

lemma fold_appendEach_eq:
  "fold (\<lambda>m acc. appendEach (body m) (sel m) acc) ms leaks
     = leaks @ concat (map (\<lambda>m. concat (map (body m) (sel m))) ms)"
  by (induction ms arbitrary: leaks) (simp_all add: appendEach_eq)

lemma distinct_fold_update:
  "distinct (map fst al) \<Longrightarrow>
   distinct (map fst (fold (\<lambda>x acc. if P x then AList.update (k x) (v x) acc else acc) xs al))"
  by (induction xs arbitrary: al) (simp_all add: distinct_update)

lemma distinct_pointerMembers: "distinct (map fst (pointerMembers c))"
  unfolding pointerMembers_def by (rule distinct_fold_update) simp

lemma distinct_allocatedVars: "distinct (map fst (allocatedVars c))"
proof (cases "Constructor c")
  case None
  then show ?thesis by (simp add: allocatedVars_def)
next
  case (Some k)
  have "distinct (map fst (fold (\<lambda>x acc. if True then AList.update (aVarName x) x acc else acc)
           (Allocations k) []))"
    by (rule distinct_fold_update) simp
  with Some show ?thesis by (simp add: allocatedVars_def)
qed

lemma analyzeClass_eq:
  "pointerMembers c \<noteq> [] \<Longrightarrow>
   analyzeClass c = rule1 c [] @ rule2 c [] @ rule3 c [] @ rule4 c []"
  unfolding analyzeClass_def rule1_def rule2_def rule3_def rule4_def
  by (simp add: appendEach_eq fold_appendEach_eq split: option.splits)

lemma rule1Entry_all_var: "list_all (\<lambda>l. lVarName l = fst e) (rule1Entry c dv am e)"
  by (simp add: rule1Entry_def mkLeak_def Let_def split: option.splits)

lemma rule1Entry_var: "l \<in> set (rule1Entry c dv am e) \<Longrightarrow> lVarName l = fst e"
  using rule1Entry_all_var [of e c dv am] by (simp only: list_all_iff)

lemma rule1_filter_var:
  "distinct (map fst al) \<Longrightarrow> (v, a) \<in> set al \<Longrightarrow>
   filter (\<lambda>l. lVarName l = v) (concat (map (rule1Entry c dv am) al)) = rule1Entry c dv am (v, a)"
proof (induction al)
  case Nil
  then show ?case by simp
next
  case (Cons e al)
  have keep: "filter (\<lambda>l. lVarName l = fst e') (rule1Entry c dv am e') = rule1Entry c dv am e'" for e'
    by (rule filter_True) (simp add: rule1Entry_var)
  have drop: "fst e' \<noteq> v \<Longrightarrow> filter (\<lambda>l. lVarName l = v) (rule1Entry c dv am e') = []" for e'
    by (auto simp: filter_empty_conv dest: rule1Entry_var)
  have none: "v \<notin> fst ` set al' \<Longrightarrow>
      filter (\<lambda>l. lVarName l = v) (concat (map (rule1Entry c dv am) al')) = []" for al'
    by (induction al') (auto simp: drop)
  show ?case
  proof (cases "e = (v, a)")
    case True
    with Cons.prems have "v \<notin> fst ` set al" by auto
    with True show ?thesis using keep [of "(v, a)"] by (simp add: none)
  next
    case False
    with Cons.prems have in_al: "(v, a) \<in> set al" by simp
    then have "v \<in> fst ` set al" by force
    with Cons.prems have "fst e \<noteq> v" by auto
    with in_al Cons show ?thesis by (simp add: drop)
  qed
qed

lemma rule2_eq:
  "rule2 c leaks = leaks @ concat (map (\<lambda>m. concat (map
      (rule2Alloc c (pointerMembers c) (allocatedVars c) m) (Allocations m))) (Methods c))"
  unfolding rule2_def by (rule fold_appendEach_eq)

lemma rule3_eq:
  "rule3 c leaks = leaks @ concat (map (\<lambda>m. concat (map
      (rule3Alias c (pointerMembers c) m) (Aliases m))) (Methods c))"
  unfolding rule3_def by (rule fold_appendEach_eq)

lemma hasDeleteBeforeNew_iff:
  "hasDeleteBeforeNew ds a \<longleftrightarrow> (\<exists>d\<in>set ds. dVarName d = aVarName a \<and> dLine d < aLine a)"
  by (induction ds) auto

lemma rule2Alloc_eq:
  "rule2Alloc c pm av m a =
     (if map_of pm (aVarName a) \<noteq> None \<and> \<not> hasDeleteBeforeNew (Deallocations m) a
          \<and> map_of av (aVarName a) \<noteq> None
      then [mkLeak c (aLine a) (aVarName a)
              (''pointer reassigned with 'new' without deleting previous allocation (in ''
                 @ fName m @ '')'') ''warning'']
      else [])"
  by (simp add: rule2Alloc_def split: option.splits)

lemma sourceDeleted_iff: "sourceDeleted ds al \<longleftrightarrow> (\<exists>d\<in>set ds. dVarName d = SourceVar al)"
proof -
  have "fold (\<lambda>d b. if dVarName d = SourceVar al then True else b) ds b0
          \<longleftrightarrow> b0 \<or> (\<exists>d\<in>set ds. dVarName d = SourceVar al)" for b0
    by (induction ds arbitrary: b0) auto
  then show ?thesis by (simp add: sourceDeleted_def)
qed

lemma targetDeleted_iff: "targetDeleted ds al \<longleftrightarrow> (\<exists>d\<in>set ds. dVarName d = TargetVar al)"
proof -
  have "fold (\<lambda>d b. if dVarName d = TargetVar al then True else b) ds b0
          \<longleftrightarrow> b0 \<or> (\<exists>d\<in>set ds. dVarName d = TargetVar al)" for b0
    by (induction ds arbitrary: b0) auto
  then show ?thesis by (simp add: targetDeleted_def)
qed

lemma rule3Alias_eq:
  "rule3Alias c pm m al =
     (if map_of pm (SourceVar al) \<noteq> None \<and> sourceDeleted (Deallocations m) al
          \<and> targetDeleted (Deallocations m) al
      then [mkLeak c (pLine al) (SourceVar al)
              (''pointer aliased to '' @ sq @ TargetVar al @ sq
                 @ '' and both are deleted (potential double-free)'') ''error'']
      else [])"
  by (simp add: rule3Alias_def split: option.splits)

lemma rule4Member_eq:
  "rule4Member c av e =
     (if map_of av (mName (snd e)) \<noteq> None
      then [mkLeak c (mLine (snd e)) (mName (snd e))
              ''pointer member allocated but class has no destructor'' ''error'']
      else [])"
  by (simp add: rule4Member_def Let_def split: option.splits)

lemma in_rule2Alloc:
  "l \<in> set (rule2Alloc c pm av m a) \<Longrightarrow>
   l = mkLeak c (aLine a) (aVarName a)
         (''pointer reassigned with 'new' without deleting previous allocation (in ''
            @ fName m @ '')'') ''warning'' \<and>
   map_of pm (aVarName a) \<noteq> None \<and> \<not> hasDeleteBeforeNew (Deallocations m) a
          \<and> map_of av (aVarName a) \<noteq> None"
  by (cases "map_of pm (aVarName a) \<noteq> None \<and> \<not> hasDeleteBeforeNew (Deallocations m) a
          \<and> map_of av (aVarName a) \<noteq> None") (simp_all add: rule2Alloc_eq)

lemma in_rule3Alias:
  "l \<in> set (rule3Alias c pm m al) \<Longrightarrow>
   l = mkLeak c (pLine al) (SourceVar al)
              (''pointer aliased to '' @ sq @ TargetVar al @ sq
                 @ '' and both are deleted (potential double-free)'') ''error'' \<and>
   map_of pm (SourceVar al) \<noteq> None \<and> sourceDeleted (Deallocations m) al
          \<and> targetDeleted (Deallocations m) al"
  by (cases "map_of pm (SourceVar al) \<noteq> None \<and> sourceDeleted (Deallocations m) al
          \<and> targetDeleted (Deallocations m) al") (simp_all add: rule3Alias_eq)

lemma in_rule4Member:
  "l \<in> set (rule4Member c av e) \<Longrightarrow>
   l = mkLeak c (mLine (snd e)) (mName (snd e))
              ''pointer member allocated but class has no destructor'' ''error'' \<and>
   map_of av (mName (snd e)) \<noteq> None"
  by (cases "map_of av (mName (snd e)) \<noteq> None") (simp_all add: rule4Member_eq)

lemma rule2_reason:
  "l \<in> set (rule2 c []) \<Longrightarrow> take 9 (lReason l) = ''pointer r''"
  by (auto simp: rule2_eq mkLeak_def dest!: in_rule2Alloc)

lemma rule3_reason:
  "l \<in> set (rule3 c []) \<Longrightarrow> take 9 (lReason l) = ''pointer a''"
  by (auto simp: rule3_eq mkLeak_def dest!: in_rule3Alias)

lemma rule4_reason:
  "l \<in> set (rule4 c []) \<Longrightarrow> take 9 (lReason l) = ''pointer m''"
  by (cases "Destructor c") (auto simp: rule4_def appendEach_eq mkLeak_def dest!: in_rule4Member)

lemma rule1Entry_all_reason:
  "list_all (\<lambda>l. take 9 (lReason l) = ''allocated'') (rule1Entry c dv am e)"
  by (simp add: rule1Entry_def mkLeak_def Let_def split: option.splits)

lemma rule1_reason:
  "l \<in> set (rule1 c []) \<Longrightarrow> take 9 (lReason l) = ''allocated''"
  using rule1Entry_all_reason [of c "deallocatedVars c" "buildAliasMap c"]
  by (auto simp: rule1_def appendEach_eq list_all_iff)

lemma anyAliasDeallocated_iff:
  "anyAliasDeallocated xs dv \<longleftrightarrow> (\<exists>n\<in>set xs. dv n \<noteq> None)"
  by (induction xs) (auto split: option.splits)

lemma isVarDeallocated_iff:
  "isVarDeallocated v dv am \<longleftrightarrow>
     dv v \<noteq> None \<or> (\<exists>xs n. am v = Some xs \<and> n \<in> set xs \<and> dv n \<noteq> None)"
  by (auto simp: isVarDeallocated_def anyAliasDeallocated_iff split: option.splits)

lemma isVarDeallocated_aliasRel:
  "isVarDeallocated v (deallocatedVars c) (buildAliasMap c) \<longleftrightarrow>
     deallocatedVars c v \<noteq> None \<or> (\<exists>n. (v, n) \<in> aliasRel c \<and> deallocatedVars c n \<noteq> None)"
  unfolding isVarDeallocated_iff aliasRel_def by blast

text \<open>The alias map lists \<open>b\<close> under \<open>a\<close> exactly when a record joins the two, in either
  direction.\<close>

lemma listed_appendAlias:
  "listed (appendAlias am k v) a = (if a = k then insert v (listed am a) else listed am a)"
  by (auto simp: appendAlias_def split: option.splits)

lemma listed_collectAliasesFromFunc:
  "listed (collectAliasesFromFunc fn am) a =
     listed am a \<union> {b. \<exists>p\<in>set (Aliases fn).
        (SourceVar p = a \<and> TargetVar p = b) \<or> (SourceVar p = b \<and> TargetVar p = a)}"
proof -
  have "listed (fold (\<lambda>alias am.
             appendAlias (appendAlias am (SourceVar alias) (TargetVar alias))
               (TargetVar alias) (SourceVar alias)) ps am) a =
     listed am a \<union> {b. \<exists>p\<in>set ps.
        (SourceVar p = a \<and> TargetVar p = b) \<or> (SourceVar p = b \<and> TargetVar p = a)}" for ps
  proof (induction ps arbitrary: am)
    case Nil
    show ?case by simp
  next
    case (Cons p ps)
    show ?case
      unfolding fold_Cons comp_def Cons.IH listed_appendAlias by auto
  qed
  then show ?thesis by (simp add: collectAliasesFromFunc_def)
qed

lemma listed_fold_collect:
  "listed (fold collectAliasesFromFunc fs am) a =
     listed am a \<union> {b. \<exists>p\<in>set (concat (map Aliases fs)).
        (SourceVar p = a \<and> TargetVar p = b) \<or> (SourceVar p = b \<and> TargetVar p = a)}"
proof (induction fs arbitrary: am)
  case Nil
  show ?case by simp
next
  case (Cons f fs)
  show ?case
    unfolding fold_Cons comp_def Cons.IH listed_collectAliasesFromFunc by auto
qed

lemma buildAliasMap_fold:
  "buildAliasMap c = fold collectAliasesFromFunc (classFunctions c) Map.empty"
  by (simp add: buildAliasMap_def classFunctions_def Let_def split: option.splits)

lemma aliasRel_records:
  "(a, b) \<in> aliasRel c \<longleftrightarrow>
     (\<exists>p\<in>set (aliasRecords c).
        (SourceVar p = a \<and> TargetVar p = b) \<or> (SourceVar p = b \<and> TargetVar p = a))"
proof -
  have "(a, b) \<in> aliasRel c \<longleftrightarrow> b \<in> listed (buildAliasMap c) a"
    by (auto simp: aliasRel_def split: option.splits)
  then show ?thesis
    unfolding buildAliasMap_fold listed_fold_collect aliasRecords_def by simp
qed



lemma not_reason_rule2: "l \<in> set (rule2 c []) \<Longrightarrow> take 9 (lReason l) \<noteq> ''allocated''"
  by (drule rule2_reason) simp
lemma not_reason_rule3: "l \<in> set (rule3 c []) \<Longrightarrow> take 9 (lReason l) \<noteq> ''allocated''"
  by (drule rule3_reason) simp
lemma not_reason_rule4: "l \<in> set (rule4 c []) \<Longrightarrow> take 9 (lReason l) \<noteq> ''allocated''"
  by (drule rule4_reason) simp

lemma filter_allocated_others:
  assumes "\<And>l. P l \<Longrightarrow> take 9 (lReason l) = ''allocated''"
  shows "filter P (rule2 c []) = []" "filter P (rule3 c []) = []" "filter P (rule4 c []) = []"
  using assms not_reason_rule2 [of _ c] not_reason_rule3 [of _ c] not_reason_rule4 [of _ c]
  unfolding filter_empty_conv by blast+

lemma rule1_eq:
  "rule1 c [] = concat (map (rule1Entry c (deallocatedVars c) (buildAliasMap c)) (allocatedVars c))"
  by (simp add: rule1_def appendEach_eq)

lemma filter_var_analyzeClass:
  assumes pm: "pointerMembers c \<noteq> []" and e: "(v, alloc) \<in> set (allocatedVars c)"
    and P: "\<And>l. P l \<Longrightarrow> lVarName l = v \<and> take 9 (lReason l) = ''allocated''"
  shows "filter P (analyzeClass c)
           = filter P (rule1Entry c (deallocatedVars c) (buildAliasMap c) (v, alloc))"
proof -
  have "filter P (rule1 c []) = filter P (filter (\<lambda>l. lVarName l = v) (rule1 c []))"
    using P by (auto intro: filter_cong)
  also have "\<dots> = filter P (rule1Entry c (deallocatedVars c) (buildAliasMap c) (v, alloc))"
    by (simp only: rule1_eq rule1_filter_var [OF distinct_allocatedVars e])
  finally show ?thesis
    using P by (simp add: analyzeClass_eq [OF pm] filter_allocated_others)
qed

lemmas ex_defs = func_def ptrMember_def pointerMembers_def allocatedVars_def methodMap_def
  deallocatedVars_def MaxMethodDepth_def addDeallocations_def collectDeallocations.simps
  buildAliasMap_def collectAliasesFromFunc_def appendAlias_def aliasRel_def

lemma ex1_dv: "deallocatedVars exAliasChain = [''z'' \<mapsto> \<lparr>dVarName = ''z'', dIsArray = False, dLine = 8\<rparr>]"
  by (simp add: deallocatedVars_def exAliasChain_def func_def collectDeallocations.simps
        MaxMethodDepth_def addDeallocations_def methodMap_def)

lemma ex1_am: "buildAliasMap exAliasChain = [''x'' \<mapsto> [''y''], ''y'' \<mapsto> [''x'', ''z''], ''z'' \<mapsto> [''y'']]"
  by (simp add: buildAliasMap_def exAliasChain_def func_def collectAliasesFromFunc_def appendAlias_def fun_upd_twist)

lemma ex1_out: "analyzeClass exAliasChain = [\<lparr>lFile = ''c.cpp'', lLine = 4, lClassName = ''C'', lVarName = ''x'',
               lReason = reasonNotDeleted, lSeverity = ''error''\<rparr>]"
  apply (simp add: analyzeClass_def rule1_def rule2_def rule3_def rule4_def appendEach_def ex1_dv ex1_am)
  apply (simp add: exAliasChain_def func_def pointerMembers_def allocatedVars_def rule1Entry_def isVarDeallocated_def mkLeak_def)
  done

lemma ex2_dv: "deallocatedVars exAliasDirect = [''y'' \<mapsto> \<lparr>dVarName = ''y'', dIsArray = False, dLine = 8\<rparr>]"
  by (simp add: deallocatedVars_def exAliasDirect_def func_def collectDeallocations.simps
        MaxMethodDepth_def addDeallocations_def methodMap_def)

lemma ex2_am: "buildAliasMap exAliasDirect = [''x'' \<mapsto> [''y''], ''y'' \<mapsto> [''x'']]"
  by (simp add: buildAliasMap_def exAliasDirect_def func_def collectAliasesFromFunc_def appendAlias_def fun_upd_twist)

lemma ex3_dv: "deallocatedVars exAliasReverse = [''y'' \<mapsto> \<lparr>dVarName = ''y'', dIsArray = False, dLine = 8\<rparr>]"
  by (simp add: deallocatedVars_def exAliasReverse_def func_def collectDeallocations.simps
        MaxMethodDepth_def addDeallocations_def methodMap_def)

subsection \<open>The traversal\<close>





lemma methodMap_in_Methods: "methodMap c n = Some m \<Longrightarrow> m \<in> set (Methods c)"
proof -
  have "fold (\<lambda>m mm. mm(fName m \<mapsto> m)) ms mm0 n = Some m \<Longrightarrow>
        (\<forall>n m. mm0 n = Some m \<longrightarrow> m \<in> S) \<Longrightarrow> m \<in> S \<union> set ms" for ms mm0 S
  proof (induction ms arbitrary: mm0 S)
    case Nil
    then show ?case by auto
  next
    case (Cons a ms)
    have "m \<in> (insert a S) \<union> set ms"
      by (rule Cons.IH [of "mm0(fName a \<mapsto> a)"]) (use Cons.prems in \<open>auto split: if_splits\<close>)
    then show ?case by auto
  qed
  from this [where ms = "Methods c" and ?mm0.0 = Map.empty and S = "{}"] show "methodMap c n = Some m \<Longrightarrow> m \<in> set (Methods c)"
    unfolding methodMap_def by simp
qed


lemma logged_fst:
  "fst (collectLogged fn mm sl depth) = collectDeallocations fn mm (fst sl) depth"
  "fst (callsLogged cs mm sl depth) = collectCalls cs mm (fst sl) depth"
proof (induction fn mm sl depth and cs mm sl depth rule: collectLogged_callsLogged.induct)
  case (1 fn mm sl depth)
  show ?case
  proof (cases "depth \<le> 0")
    case True
    then show ?thesis by (simp add: collectLogged.simps collectDeallocations.simps)
  next
    case pos: False
    show ?thesis
    proof (cases fn)
      case None
      with pos show ?thesis by (simp add: collectLogged.simps collectDeallocations.simps)
    next
      case (Some f)
      show ?thesis
      proof (cases "fName f \<in> snd (fst sl)")
        case True
        with pos Some show ?thesis by (simp add: collectLogged.simps collectDeallocations.simps)
      next
        case False
        from "1.IH" [OF pos Some False] pos Some False show ?thesis
          by (simp add: collectLogged.simps collectDeallocations.simps)
      qed
    qed
  qed
next
  case (2 mm sl depth)
  then show ?case by simp
next
  case (3 methodName rest mm sl depth)
  show ?case
  proof (cases "mm methodName")
    case None
    with "3.IH"(2) show ?thesis by simp
  next
    case (Some g)
    with "3.IH"(1) [OF Some] "3.IH"(2) show ?thesis by simp
  qed
qed

lemma logged_inv:
  "logInv S sl \<longrightarrow> (\<forall>f. fn = Some f \<longrightarrow> f \<in> S) \<longrightarrow> ran mm \<subseteq> S \<longrightarrow>
     logInv S (collectLogged fn mm sl depth)"
  "logInv S sl \<longrightarrow> ran mm \<subseteq> S \<longrightarrow> logInv S (callsLogged cs mm sl depth)"
proof (induction fn mm sl depth and cs mm sl depth rule: collectLogged_callsLogged.induct)
  case (1 fn mm sl depth)
  show ?case
  proof (intro impI)
    assume inv: "logInv S sl" and fS: "\<forall>f. fn = Some f \<longrightarrow> f \<in> S" and ran: "ran mm \<subseteq> S"
    show "logInv S (collectLogged fn mm sl depth)"
    proof (cases "depth \<le> 0 \<or> fn = None \<or> (\<exists>f. fn = Some f \<and> fName f \<in> snd (fst sl))")
      case True
      then have "collectLogged fn mm sl depth = sl"
        by (auto simp: collectLogged.simps split: option.splits)
      with inv show ?thesis by simp
    next
      case False
      then obtain f where pos: "\<not> depth \<le> 0" and fn: "fn = Some f"
        and nv: "fName f \<notin> snd (fst sl)" by auto
      let ?sl1 = "((addDeallocations (Deallocations f) (fst (fst sl)),
                   insert (fName f) (snd (fst sl))), snd sl @ [f])"
      have "logInv S ?sl1"
        using inv nv fS fn unfolding logInv_def by auto
      with "1.IH" [OF pos fn nv] ran have "logInv S (callsLogged (MethodCalls f) mm ?sl1 depth)"
        by blast
      with pos fn nv show ?thesis by (simp add: collectLogged.simps)
    qed
  qed
next
  case (2 mm sl depth)
  then show ?case by simp
next
  case (3 methodName rest mm sl depth)
  show ?case
  proof (intro impI)
    assume inv: "logInv S sl" and ran: "ran mm \<subseteq> S"
    let ?sl1 = "case mm methodName of None \<Rightarrow> sl
        | Some calledMethod \<Rightarrow> collectLogged (Some calledMethod) mm sl (depth - 1)"
    have "logInv S ?sl1"
    proof (cases "mm methodName")
      case None
      with inv show ?thesis by simp
    next
      case (Some g)
      then have "g \<in> S" using ran by (auto simp: ran_def)
      with "3.IH"(1) [OF Some] inv ran Some show ?thesis by simp
    qed
    with "3.IH"(2) ran show "logInv S (callsLogged (methodName # rest) mm sl depth)"
      by simp
  qed
qed

lemma collect_visited_noop:
  "fName f \<in> snd st \<Longrightarrow> collectDeallocations (Some f) mm st depth = st"
  by (simp add: collectDeallocations.simps)

lemma collectCalls_append:
  "collectCalls (cs1 @ cs2) mm st depth = collectCalls cs2 mm (collectCalls cs1 mm st depth) depth"
  by (induction cs1 arbitrary: st) simp_all

lemma visited_mono:
  "snd st \<subseteq> snd (collectDeallocations fn mm st depth)"
  "snd st \<subseteq> snd (collectCalls cs mm st depth)"
proof (induction fn mm st depth and cs mm st depth rule: collectDeallocations_collectCalls.induct)
  case (1 fn mm st depth)
  show ?case
  proof (cases "depth \<le> 0 \<or> fn = None \<or> (\<exists>f. fn = Some f \<and> fName f \<in> snd st)")
    case True
    then have "collectDeallocations fn mm st depth = st"
      by (auto simp: collectDeallocations.simps split: option.splits)
    then show ?thesis by simp
  next
    case False
    then obtain f where pos: "\<not> depth \<le> 0" and fn: "fn = Some f"
      and nv: "fName f \<notin> snd st" by auto
    from "1.IH" [OF pos fn nv] pos fn nv show ?thesis
      by (auto simp: collectDeallocations.simps)
  qed
next
  case (2 mm st depth)
  then show ?case by simp
next
  case (3 methodName rest mm st depth)
  show ?case
  proof (cases "mm methodName")
    case None
    with "3.IH"(2) show ?thesis by simp
  next
    case (Some g)
    with "3.IH"(1) [OF Some] "3.IH"(2) show ?thesis by auto
  qed
qed

subsection \<open>What a traversal collects\<close>












subsection \<open>Released and not released\<close>

lemma not_released_filter:
  assumes "pointerMembers c \<noteq> []"
    and "(v, alloc) \<in> set (allocatedVars c)"
    and nd: "\<not> isVarDeallocated v (deallocatedVars c) (buildAliasMap c)"
  shows "filter (\<lambda>l. lVarName l = v \<and> lReason l = reasonNotDeleted) (analyzeClass c)
           = [\<lparr>lFile = cFile c, lLine = aLine alloc, lClassName = cName c, lVarName = v,
               lReason = reasonNotDeleted, lSeverity = ''error''\<rparr>]"
proof -
  have "filter (\<lambda>l. lVarName l = v \<and> lReason l = reasonNotDeleted) (analyzeClass c)
      = filter (\<lambda>l. lVarName l = v \<and> lReason l = reasonNotDeleted)
          (rule1Entry c (deallocatedVars c) (buildAliasMap c) (v, alloc))"
    by (rule filter_var_analyzeClass [OF assms(1,2)]) auto
  also have "\<dots> = [mkLeak c (aLine alloc) v reasonNotDeleted ''error'']"
    using nd by (simp add: rule1Entry_def mkLeak_def)
  finally show ?thesis by (simp add: mkLeak_def)
qed

lemma released_filter:
  assumes rel: "isVarDeallocated X (deallocatedVars c) (buildAliasMap c)"
  shows "filter (\<lambda>l. lVarName l = X \<and> lReason l = reasonNotDeleted) (analyzeClass c) = []"
proof (cases "pointerMembers c = []")
  case True
  then show ?thesis by (simp add: analyzeClass_def)
next
  case False
  have r1: "\<not> (lVarName l = X \<and> lReason l = reasonNotDeleted)" if "l \<in> set (rule1 c [])" for l
  proof -
    from that obtain e where e: "e \<in> set (allocatedVars c)"
      and l: "l \<in> set (rule1Entry c (deallocatedVars c) (buildAliasMap c) e)"
      by (auto simp: rule1_eq)
    show ?thesis
    proof (cases "fst e = X")
      case True
      have "list_all (\<lambda>l. lReason l \<noteq> reasonNotDeleted)
              (rule1Entry c (deallocatedVars c) (buildAliasMap c) e)"
        using rel True by (simp add: rule1Entry_def mkLeak_def Let_def split: option.splits)
      with l show ?thesis by (simp add: list_all_iff)
    next
      case False
      with rule1Entry_var [OF l] show ?thesis by simp
    qed
  qed
  have others: "lReason l \<noteq> reasonNotDeleted"
    if "l \<in> set (rule2 c []) \<or> l \<in> set (rule3 c []) \<or> l \<in> set (rule4 c [])" for l
    using that not_reason_rule2 [of l c] not_reason_rule3 [of l c] not_reason_rule4 [of l c]
    by auto
  have "\<forall>l\<in>set (analyzeClass c). \<not> (lVarName l = X \<and> lReason l = reasonNotDeleted)"
    using r1 others by (auto simp: analyzeClass_eq [OF False])
  then show ?thesis unfolding filter_empty_conv by blast
qed

lemmas ex_trav_defs = callees_def exLevel_def arrAlloc_def arrDealloc_def eval_nat_numeral

section \<open>Rule 1: missing deallocation and array mismatch\<close>

text \<open>
  Claim C1, as stated, fails: the class below is what the parser records for a constructor
  with \<open>x = new int; y = x; z = y;\<close> and a destructor with \<open>delete z;\<close>. The name
  \<open>z\<close> is reachable from \<open>x\<close> over two alias edges and is deleted in the destructor,
  but \<open>isVarDeallocated\<close> looks only at \<open>x\<close> itself and at the names listed under
  \<open>x\<close> in the alias map, so the missing-deallocation leak for \<open>x\<close> is emitted.
\<close>

theorem alias_chain_not_discharged:
  "(''x'', ''z'') \<in> (aliasRel exAliasChain)\<^sup>* \<and>
   deallocatedVars exAliasChain ''z'' \<noteq> None \<and>
   \<lparr>lFile = ''c.cpp'', lLine = 4, lClassName = ''C'', lVarName = ''x'',
     lReason = reasonNotDeleted, lSeverity = ''error''\<rparr> \<in> set (analyzeClass exAliasChain)"
proof -
  have "(''x'', ''y'') \<in> aliasRel exAliasChain" "(''y'', ''z'') \<in> aliasRel exAliasChain"
    by (simp_all add: aliasRel_def ex1_am)
  then have "(''x'', ''z'') \<in> (aliasRel exAliasChain)\<^sup>*" by (blast intro: rtrancl_trans)
  then show ?thesis by (simp add: ex1_dv ex1_out)
qed

text \<open>
  Claim C1, amended. The alias relation joins two names exactly when a \<open>PointerAlias\<close>
  record of the constructor, the destructor or a method has one of them as source and the
  other as target. For every class, Rule 1 emits no missing-deallocation leak for a name
  \<open>X\<close> whenever \<open>X\<close> itself, or the other end of a record that has \<open>X\<close> as its source
  or as its target, is a key of the deallocations collected from the destructor. And a
  constructor-allocated \<open>X\<close> for which neither holds gets the leak, whatever is deleted
  two or more alias edges away.
\<close>

theorem direct_alias_discharges:
  "((a, b) \<in> aliasRel c \<longleftrightarrow>
      (\<exists>p\<in>set (aliasRecords c).
         (SourceVar p = a \<and> TargetVar p = b) \<or> (SourceVar p = b \<and> TargetVar p = a))) \<and>
   (deallocatedVars c X \<noteq> None \<or>
    (\<exists>p\<in>set (aliasRecords c).
       (SourceVar p = X \<and> deallocatedVars c (TargetVar p) \<noteq> None) \<or>
       (TargetVar p = X \<and> deallocatedVars c (SourceVar p) \<noteq> None))
    \<longrightarrow> (\<forall>l\<in>set (analyzeClass c). \<not> (lVarName l = X \<and> lReason l = reasonNotDeleted))) \<and>
   (pointerMembers c \<noteq> [] \<longrightarrow> (X, alloc) \<in> set (allocatedVars c) \<longrightarrow>
    deallocatedVars c X = None \<longrightarrow>
    (\<forall>p\<in>set (aliasRecords c).
       (SourceVar p = X \<longrightarrow> deallocatedVars c (TargetVar p) = None) \<and>
       (TargetVar p = X \<longrightarrow> deallocatedVars c (SourceVar p) = None)) \<longrightarrow>
    filter (\<lambda>l. lVarName l = X \<and> lReason l = reasonNotDeleted) (analyzeClass c)
      = [\<lparr>lFile = cFile c, lLine = aLine alloc, lClassName = cName c, lVarName = X,
          lReason = reasonNotDeleted, lSeverity = ''error''\<rparr>])"
proof (intro conjI impI)
  show "(a, b) \<in> aliasRel c \<longleftrightarrow>
      (\<exists>p\<in>set (aliasRecords c).
         (SourceVar p = a \<and> TargetVar p = b) \<or> (SourceVar p = b \<and> TargetVar p = a))"
    by (rule aliasRel_records)
next
  assume "deallocatedVars c X \<noteq> None \<or>
    (\<exists>p\<in>set (aliasRecords c).
       (SourceVar p = X \<and> deallocatedVars c (TargetVar p) \<noteq> None) \<or>
       (TargetVar p = X \<and> deallocatedVars c (SourceVar p) \<noteq> None))"
  then have "deallocatedVars c X \<noteq> None \<or>
      (\<exists>n. (X, n) \<in> aliasRel c \<and> deallocatedVars c n \<noteq> None)"
    unfolding aliasRel_records by blast
  then have "isVarDeallocated X (deallocatedVars c) (buildAliasMap c)"
    by (simp add: isVarDeallocated_aliasRel)
  then have "filter (\<lambda>l. lVarName l = X \<and> lReason l = reasonNotDeleted) (analyzeClass c) = []"
    by (rule released_filter)
  then show "\<forall>l\<in>set (analyzeClass c). \<not> (lVarName l = X \<and> lReason l = reasonNotDeleted)"
    unfolding filter_empty_conv by blast
next
  assume pm: "pointerMembers c \<noteq> []" and al: "(X, alloc) \<in> set (allocatedVars c)"
    and dX: "deallocatedVars c X = None"
    and none: "\<forall>p\<in>set (aliasRecords c).
       (SourceVar p = X \<longrightarrow> deallocatedVars c (TargetVar p) = None) \<and>
       (TargetVar p = X \<longrightarrow> deallocatedVars c (SourceVar p) = None)"
  from none have "\<forall>n. (X, n) \<in> aliasRel c \<longrightarrow> deallocatedVars c n = None"
    by (auto simp: aliasRel_records)
  with dX have "\<not> isVarDeallocated X (deallocatedVars c) (buildAliasMap c)"
    by (simp add: isVarDeallocated_aliasRel)
  with pm al show "filter (\<lambda>l. lVarName l = X \<and> lReason l = reasonNotDeleted) (analyzeClass c)
      = [\<lparr>lFile = cFile c, lLine = aLine alloc, lClassName = cName c, lVarName = X,
          lReason = reasonNotDeleted, lSeverity = ''error''\<rparr>]"
    by (rule not_released_filter)
qed

text \<open>
  The amended claim at three classes: \<open>x = new int; y = x;\<close> with \<open>delete y;\<close> (the
  deleted name is the target of the record), \<open>x = new int;\<close>, \<open>x = y;\<close> with
  \<open>delete y;\<close> (the deleted name is the source), and the chain \<open>y = x; z = y;\<close> with
  \<open>delete z;\<close>, where the leak for \<open>x\<close> is emitted.
\<close>

theorem direct_alias_discharges_witness:
  "aliasRecords exAliasDirect = [\<lparr>SourceVar = ''x'', TargetVar = ''y'', pLine = 5\<rparr>] \<and>
   deallocatedVars exAliasDirect ''y'' \<noteq> None \<and>
   filter (\<lambda>l. lVarName l = ''x'' \<and> lReason l = reasonNotDeleted) (analyzeClass exAliasDirect) = [] \<and>
   aliasRecords exAliasReverse = [\<lparr>SourceVar = ''y'', TargetVar = ''x'', pLine = 6\<rparr>] \<and>
   deallocatedVars exAliasReverse ''y'' \<noteq> None \<and>
   filter (\<lambda>l. lVarName l = ''x'' \<and> lReason l = reasonNotDeleted) (analyzeClass exAliasReverse) = [] \<and>
   aliasRecords exAliasChain = [\<lparr>SourceVar = ''x'', TargetVar = ''y'', pLine = 5\<rparr>,
                                \<lparr>SourceVar = ''y'', TargetVar = ''z'', pLine = 6\<rparr>] \<and>
   deallocatedVars exAliasChain ''x'' = None \<and> deallocatedVars exAliasChain ''y'' = None \<and>
   filter (\<lambda>l. lVarName l = ''x'' \<and> lReason l = reasonNotDeleted) (analyzeClass exAliasChain)
     = [\<lparr>lFile = ''c.cpp'', lLine = 4, lClassName = ''C'', lVarName = ''x'',
         lReason = reasonNotDeleted, lSeverity = ''error''\<rparr>]"
proof -
  have r2: "aliasRecords exAliasDirect = [\<lparr>SourceVar = ''x'', TargetVar = ''y'', pLine = 5\<rparr>]"
    by (simp add: aliasRecords_def classFunctions_def exAliasDirect_def func_def)
  have d2: "deallocatedVars exAliasDirect ''y'' \<noteq> None" by (simp add: ex2_dv)
  from direct_alias_discharges [of "''x''" "''y''" exAliasDirect "''x''", THEN conjunct2, THEN conjunct1]
    r2 d2
  have "\<forall>l\<in>set (analyzeClass exAliasDirect). \<not> (lVarName l = ''x'' \<and> lReason l = reasonNotDeleted)"
    by simp
  then have f2: "filter (\<lambda>l. lVarName l = ''x'' \<and> lReason l = reasonNotDeleted)
      (analyzeClass exAliasDirect) = []"
    unfolding filter_empty_conv by blast
  have r3: "aliasRecords exAliasReverse = [\<lparr>SourceVar = ''y'', TargetVar = ''x'', pLine = 6\<rparr>]"
    by (simp add: aliasRecords_def classFunctions_def exAliasReverse_def func_def)
  have d3: "deallocatedVars exAliasReverse ''y'' \<noteq> None" by (simp add: ex3_dv)
  from direct_alias_discharges [of "''x''" "''y''" exAliasReverse "''x''", THEN conjunct2, THEN conjunct1]
    r3 d3
  have "\<forall>l\<in>set (analyzeClass exAliasReverse). \<not> (lVarName l = ''x'' \<and> lReason l = reasonNotDeleted)"
    by simp
  then have f3: "filter (\<lambda>l. lVarName l = ''x'' \<and> lReason l = reasonNotDeleted)
      (analyzeClass exAliasReverse) = []"
    unfolding filter_empty_conv by blast
  have r1: "aliasRecords exAliasChain = [\<lparr>SourceVar = ''x'', TargetVar = ''y'', pLine = 5\<rparr>,
                                \<lparr>SourceVar = ''y'', TargetVar = ''z'', pLine = 6\<rparr>]"
    by (simp add: aliasRecords_def classFunctions_def exAliasChain_def func_def)
  have d1: "deallocatedVars exAliasChain ''x'' = None" "deallocatedVars exAliasChain ''y'' = None"
    by (simp_all add: ex1_dv)
  have pm1: "pointerMembers exAliasChain \<noteq> []"
    and al1: "(''x'', \<lparr>aVarName = ''x'', aIsArray = False, aLine = 4\<rparr>) \<in> set (allocatedVars exAliasChain)"
    by (simp_all add: exAliasChain_def ex_defs)
  from direct_alias_discharges [of "''x''" "''y''" exAliasChain "''x''"
      "\<lparr>aVarName = ''x'', aIsArray = False, aLine = 4\<rparr>", THEN conjunct2, THEN conjunct2]
    pm1 al1 r1 d1
  have f1: "filter (\<lambda>l. lVarName l = ''x'' \<and> lReason l = reasonNotDeleted) (analyzeClass exAliasChain)
     = [\<lparr>lFile = cFile exAliasChain, lLine = 4, lClassName = cName exAliasChain, lVarName = ''x'',
         lReason = reasonNotDeleted, lSeverity = ''error''\<rparr>]"
    by simp
  have nm: "cFile exAliasChain = ''c.cpp''" "cName exAliasChain = ''C''"
    by (simp_all add: exAliasChain_def)
  from r2 d2 f2 r3 d3 f3 r1 d1 f1 show ?thesis by (simp only: nm) simp
qed

text \<open>
  Claim C2: for every class with at least one pointer member and every entry
  \<open>(v, alloc)\<close> of \<open>allocatedVars\<close>: if neither \<open>v\<close> nor a name alias-related to \<open>v\<close>
  is a key of the deallocations collected from the destructor, the output of
  \<open>analyzeClass\<close> holds exactly one leak for \<open>v\<close> with the reason
  "allocated with 'new' but not deleted in destructor"; its severity is \<open>error\<close> and its
  line is \<open>alloc.Line\<close>.
\<close>

theorem missing_delete_exactly_one:
  assumes "pointerMembers c \<noteq> []"
    and "(v, alloc) \<in> set (allocatedVars c)"
    and "deallocatedVars c v = None"
    and "\<forall>n. (v, n) \<in> aliasRel c \<longrightarrow> deallocatedVars c n = None"
  shows "filter (\<lambda>l. lVarName l = v \<and> lReason l = reasonNotDeleted) (analyzeClass c)
           = [\<lparr>lFile = cFile c, lLine = aLine alloc, lClassName = cName c, lVarName = v,
               lReason = reasonNotDeleted, lSeverity = ''error''\<rparr>]"
proof -
  from assms(3,4) have "\<not> isVarDeallocated v (deallocatedVars c) (buildAliasMap c)"
    by (simp add: isVarDeallocated_aliasRel)
  with assms(1,2) show ?thesis by (rule not_released_filter)
qed

text \<open>
  Claim C2 at \<open>BasicLeak\<close> of the test data: \<open>ptr\<close> is allocated at line 11 and the
  destructor is empty.
\<close>

theorem missing_delete_exactly_one_witness:
  "pointerMembers exBasicLeak \<noteq> [] \<and>
   (''ptr'', \<lparr>aVarName = ''ptr'', aIsArray = False, aLine = 11\<rparr>) \<in> set (allocatedVars exBasicLeak) \<and>
   deallocatedVars exBasicLeak ''ptr'' = None \<and>
   buildAliasMap exBasicLeak ''ptr'' = None \<and>
   filter (\<lambda>l. lVarName l = ''ptr'' \<and> lReason l = reasonNotDeleted) (analyzeClass exBasicLeak)
     = [\<lparr>lFile = ''edge_cases.cpp'', lLine = 11, lClassName = ''BasicLeak'', lVarName = ''ptr'',
         lReason = reasonNotDeleted, lSeverity = ''error''\<rparr>]"
proof -
  have h1: "pointerMembers exBasicLeak \<noteq> []"
    and h2: "(''ptr'', \<lparr>aVarName = ''ptr'', aIsArray = False, aLine = 11\<rparr>) \<in> set (allocatedVars exBasicLeak)"
    and h3: "deallocatedVars exBasicLeak ''ptr'' = None"
    and h4: "\<forall>n. (''ptr'', n) \<in> aliasRel exBasicLeak \<longrightarrow> deallocatedVars exBasicLeak n = None"
    by (simp_all add: exBasicLeak_def ex_defs)
  have h5: "buildAliasMap exBasicLeak ''ptr'' = None"
    by (simp add: exBasicLeak_def ex_defs)
  from missing_delete_exactly_one [OF h1 h2 h3 h4] h1 h2 h3 h5 show ?thesis
    by (simp add: exBasicLeak_def)
qed



section \<open>Rule 2: re-assignment without prior release\<close>

lemma rule2_in_output:
  assumes "M \<in> set (Methods c)" "a \<in> set (Allocations M)"
  shows "set (rule2Alloc c (pointerMembers c) (allocatedVars c) M a) \<subseteq> set (analyzeClass c)"
proof (cases "pointerMembers c = []")
  case True
  then show ?thesis by (simp add: rule2Alloc_eq)
next
  case False
  have "set (rule2Alloc c (pointerMembers c) (allocatedVars c) M a) \<subseteq> set (rule2 c [])"
    using assms unfolding rule2_eq by auto
  then show ?thesis using analyzeClass_eq [OF False] by auto
qed

lemma rule2_leak_origin:
  assumes "l \<in> set (analyzeClass c)" and "take 9 (lReason l) = ''pointer r''"
  shows "\<exists>M\<in>set (Methods c). \<exists>a\<in>set (Allocations M).
           l \<in> set (rule2Alloc c (pointerMembers c) (allocatedVars c) M a)"
proof (cases "pointerMembers c = []")
  case True
  with assms show ?thesis by (simp add: analyzeClass_def)
next
  case False
  have "l \<notin> set (rule1 c [])" "l \<notin> set (rule3 c [])" "l \<notin> set (rule4 c [])"
    using assms(2) rule1_reason [of l c] rule3_reason [of l c] rule4_reason [of l c] by auto
  with assms(1) have "l \<in> set (rule2 c [])" by (simp add: analyzeClass_eq [OF False])
  then show ?thesis unfolding rule2_eq by auto
qed

text \<open>
  Claim C5: for every method \<open>M\<close> of a class and every allocation \<open>a\<close> recorded in
  \<open>M\<close>, the pass of Rule 2 over \<open>(M, a)\<close> appends the warning leak at line \<open>a.Line\<close>
  if and only if \<open>a.VarName\<close> is a pointer member, \<open>M\<close> has no deallocation of that
  variable at a line strictly less than \<open>a.Line\<close>, and the variable was allocated in the
  constructor; what the pass appends is part of the analyzer's output. In particular a
  delete of the variable at an earlier line of \<open>M\<close> means nothing is appended for \<open>a\<close>.
  When no other method of the class bears the name of \<open>M\<close> (the leak names the method),
  the leak is in the output exactly under that condition.
\<close>

theorem rule2_reassignment:
  assumes "M \<in> set (Methods c)" and "a \<in> set (Allocations M)"
  shows "let leak = \<lparr>lFile = cFile c, lLine = aLine a, lClassName = cName c,
                      lVarName = aVarName a,
                      lReason = ''pointer reassigned with 'new' without deleting previous allocation (in ''
                                  @ fName M @ '')'',
                      lSeverity = ''warning''\<rparr>;
             emitted = rule2Alloc c (pointerMembers c) (allocatedVars c) M a;
             deletedBefore = (\<exists>d\<in>set (Deallocations M). dVarName d = aVarName a \<and> dLine d < aLine a);
             cond = (map_of (pointerMembers c) (aVarName a) \<noteq> None \<and> \<not> deletedBefore
                       \<and> map_of (allocatedVars c) (aVarName a) \<noteq> None)
         in set emitted \<subseteq> set (analyzeClass c) \<and>
            (cond \<longrightarrow> emitted = [leak]) \<and>
            (\<not> cond \<longrightarrow> emitted = []) \<and>
            (deletedBefore \<longrightarrow> emitted = []) \<and>
            ((\<forall>M'\<in>set (Methods c). fName M' = fName M \<longrightarrow> M' = M) \<longrightarrow>
               (leak \<in> set (analyzeClass c) \<longleftrightarrow> cond))"
proof -
  let ?leak = "\<lparr>lFile = cFile c, lLine = aLine a, lClassName = cName c,
                      lVarName = aVarName a,
                      lReason = ''pointer reassigned with 'new' without deleting previous allocation (in ''
                                  @ fName M @ '')'',
                      lSeverity = ''warning''\<rparr>"
  let ?cond = "map_of (pointerMembers c) (aVarName a) \<noteq> None
      \<and> \<not> (\<exists>d\<in>set (Deallocations M). dVarName d = aVarName a \<and> dLine d < aLine a)
      \<and> map_of (allocatedVars c) (aVarName a) \<noteq> None"
  let ?em = "rule2Alloc c (pointerMembers c) (allocatedVars c) M a"
  have em: "?em = (if ?cond then [?leak] else [])"
    by (simp add: rule2Alloc_eq hasDeleteBeforeNew_iff mkLeak_def)
  have sub: "set ?em \<subseteq> set (analyzeClass c)"
    by (rule rule2_in_output [OF assms])
  have only: "?cond" if uniq: "\<forall>M'\<in>set (Methods c). fName M' = fName M \<longrightarrow> M' = M"
    and l: "?leak \<in> set (analyzeClass c)"
  proof -
    have "take 9 (lReason ?leak) = ''pointer r''" by simp
    from rule2_leak_origin [OF l this] obtain M' a' where M': "M' \<in> set (Methods c)"
      and a': "a' \<in> set (Allocations M')"
      and l': "?leak \<in> set (rule2Alloc c (pointerMembers c) (allocatedVars c) M' a')"
      by blast
    from in_rule2Alloc [OF l'] have eq: "fName M' = fName M" "aVarName a' = aVarName a"
        "aLine a' = aLine a"
      and c': "map_of (pointerMembers c) (aVarName a') \<noteq> None"
        "\<not> hasDeleteBeforeNew (Deallocations M') a'"
        "map_of (allocatedVars c) (aVarName a') \<noteq> None"
      by (simp_all add: mkLeak_def)
    from uniq M' eq(1) have "M' = M" by blast
    with eq c' show ?thesis by (simp add: hasDeleteBeforeNew_iff)
  qed
  have "set ?em \<subseteq> set (analyzeClass c) \<and> (?cond \<longrightarrow> ?em = [?leak]) \<and> (\<not> ?cond \<longrightarrow> ?em = [])
        \<and> ((\<exists>d\<in>set (Deallocations M). dVarName d = aVarName a \<and> dLine d < aLine a) \<longrightarrow> ?em = [])
        \<and> ((\<forall>M'\<in>set (Methods c). fName M' = fName M \<longrightarrow> M' = M) \<longrightarrow>
               (?leak \<in> set (analyzeClass c) \<longleftrightarrow> ?cond))"
  proof (intro conjI impI)
    show "set ?em \<subseteq> set (analyzeClass c)" by (rule sub)
    show "?em = [?leak]" if "?cond" using that em by simp
    show "?em = []" if "\<not> ?cond" using that em by simp
    show "?em = []" if "\<exists>d\<in>set (Deallocations M). dVarName d = aVarName a \<and> dLine d < aLine a"
      using that em by simp
    show "?leak \<in> set (analyzeClass c) \<longleftrightarrow> ?cond"
      if "\<forall>M'\<in>set (Methods c). fName M' = fName M \<longrightarrow> M' = M"
    proof
      assume "?leak \<in> set (analyzeClass c)"
      with that show "?cond" by (rule only)
    next
      assume "?cond"
      then have "?em = [?leak]" using em by simp
      with sub show "?leak \<in> set (analyzeClass c)" by simp
    qed
  qed
  then show ?thesis unfolding Let_def .
qed

text \<open>
  Claim C5 at two classes of the test data: \<open>ReassignmentLeak\<close>, whose method allocates
  \<open>ptr\<close> at line 118 with no delete before, and \<open>ProperReassignment\<close>, whose method
  deletes \<open>ptr\<close> at line 133 and allocates it again at line 134.
\<close>

theorem rule2_reassignment_witness:
  "exReassignBad \<in> set (Methods exReassignmentLeak) \<and>
   \<lparr>aVarName = ''ptr'', aIsArray = False, aLine = 118\<rparr> \<in> set (Allocations exReassignBad) \<and>
   \<lparr>lFile = ''edge_cases.cpp'', lLine = 118, lClassName = ''ReassignmentLeak'', lVarName = ''ptr'',
     lReason = ''pointer reassigned with 'new' without deleting previous allocation (in reassign)'',
     lSeverity = ''warning''\<rparr> \<in> set (analyzeClass exReassignmentLeak) \<and>
   exReassign \<in> set (Methods exProperReassignment) \<and>
   \<lparr>aVarName = ''ptr'', aIsArray = False, aLine = 134\<rparr> \<in> set (Allocations exReassign) \<and>
   (\<exists>d\<in>set (Deallocations exReassign). dVarName d = ''ptr'' \<and> dLine d < 134) \<and>
   \<lparr>lFile = ''edge_cases.cpp'', lLine = 134, lClassName = ''ProperReassignment'', lVarName = ''ptr'',
     lReason = ''pointer reassigned with 'new' without deleting previous allocation (in reassign)'',
     lSeverity = ''warning''\<rparr> \<notin> set (analyzeClass exProperReassignment)"
proof -
  have m1: "exReassignBad \<in> set (Methods exReassignmentLeak)"
    and m2: "exReassign \<in> set (Methods exProperReassignment)"
    by (simp_all add: exReassignmentLeak_def exProperReassignment_def)
  have a1: "\<lparr>aVarName = ''ptr'', aIsArray = False, aLine = 118\<rparr> \<in> set (Allocations exReassignBad)"
    and a2: "\<lparr>aVarName = ''ptr'', aIsArray = False, aLine = 134\<rparr> \<in> set (Allocations exReassign)"
    by (simp_all add: exReassignBad_def exReassign_def func_def)
  have u1: "\<forall>M'\<in>set (Methods exReassignmentLeak). fName M' = fName exReassignBad \<longrightarrow> M' = exReassignBad"
    and u2: "\<forall>M'\<in>set (Methods exProperReassignment). fName M' = fName exReassign \<longrightarrow> M' = exReassign"
    by (simp_all add: exReassignmentLeak_def exProperReassignment_def)
  have c1: "map_of (pointerMembers exReassignmentLeak) ''ptr'' \<noteq> None"
      "map_of (allocatedVars exReassignmentLeak) ''ptr'' \<noteq> None"
      "\<not> (\<exists>d\<in>set (Deallocations exReassignBad). dVarName d = ''ptr'' \<and> dLine d < 118)"
    by (simp_all add: exReassignmentLeak_def exReassignBad_def ex_defs)
  have c2: "\<exists>d\<in>set (Deallocations exReassign). dVarName d = ''ptr'' \<and> dLine d < 134"
    by (simp add: exReassign_def func_def)
  have n1: "fName exReassignBad = ''reassign''" "fName exReassign = ''reassign''"
    "cFile exReassignmentLeak = ''edge_cases.cpp''" "cName exReassignmentLeak = ''ReassignmentLeak''"
    "cFile exProperReassignment = ''edge_cases.cpp''" "cName exProperReassignment = ''ProperReassignment''"
    by (simp_all add: exReassignBad_def exReassign_def func_def exReassignmentLeak_def
          exProperReassignment_def)
  from rule2_reassignment [OF m1 a1] u1 c1 n1
  have r1: "\<lparr>lFile = ''edge_cases.cpp'', lLine = 118, lClassName = ''ReassignmentLeak'', lVarName = ''ptr'',
     lReason = ''pointer reassigned with 'new' without deleting previous allocation (in reassign)'',
     lSeverity = ''warning''\<rparr> \<in> set (analyzeClass exReassignmentLeak)"
    unfolding Let_def by simp
  from rule2_reassignment [OF m2 a2] u2 c2 n1
  have r2: "\<lparr>lFile = ''edge_cases.cpp'', lLine = 134, lClassName = ''ProperReassignment'', lVarName = ''ptr'',
     lReason = ''pointer reassigned with 'new' without deleting previous allocation (in reassign)'',
     lSeverity = ''warning''\<rparr> \<notin> set (analyzeClass exProperReassignment)"
    unfolding Let_def by simp
  from m1 m2 a1 a2 c2 r1 r2 show ?thesis by blast
qed

section \<open>Rule 3: double free via alias\<close>

lemma rule3_in_output:
  assumes "M \<in> set (Methods c)" "al \<in> set (Aliases M)"
  shows "set (rule3Alias c (pointerMembers c) M al) \<subseteq> set (analyzeClass c)"
proof (cases "pointerMembers c = []")
  case True
  then show ?thesis by (simp add: rule3Alias_eq)
next
  case False
  have "set (rule3Alias c (pointerMembers c) M al) \<subseteq> set (rule3 c [])"
    using assms unfolding rule3_eq by auto
  then show ?thesis using analyzeClass_eq [OF False] by auto
qed

lemma rule3_leak_origin:
  assumes "l \<in> set (analyzeClass c)" and "take 9 (lReason l) = ''pointer a''"
  shows "\<exists>M\<in>set (Methods c). \<exists>al\<in>set (Aliases M).
           l \<in> set (rule3Alias c (pointerMembers c) M al)"
proof (cases "pointerMembers c = []")
  case True
  with assms show ?thesis by (simp add: analyzeClass_def)
next
  case False
  have "l \<notin> set (rule1 c [])" "l \<notin> set (rule2 c [])" "l \<notin> set (rule4 c [])"
    using assms(2) rule1_reason [of l c] rule2_reason [of l c] rule4_reason [of l c] by auto
  with assms(1) have "l \<in> set (rule3 c [])" by (simp add: analyzeClass_eq [OF False])
  then show ?thesis unfolding rule3_eq by auto
qed

text \<open>
  Claim C6: for every method \<open>M\<close> of a class and every alias \<open>\<alpha>\<close> recorded in \<open>M\<close>
  whose source is a pointer member: if \<open>M\<close> holds a deallocation of \<open>\<alpha>.SourceVar\<close> and
  one of \<open>\<alpha>.TargetVar\<close> (in any order), the pass of Rule 3 over \<open>(M, \<alpha>)\<close> appends the
  \<open>error\<close> leak at line \<open>\<alpha>.Line\<close> for \<open>\<alpha>.SourceVar\<close>; if either deletion is absent
  from \<open>M\<close> it appends nothing. What the pass appends is part of the analyzer's output,
  and the leak is in the output exactly when some method that records \<open>\<alpha>\<close> holds both
  deletions.
\<close>

theorem rule3_double_free:
  assumes "M \<in> set (Methods c)" and "\<alpha> \<in> set (Aliases M)"
    and "map_of (pointerMembers c) (SourceVar \<alpha>) \<noteq> None"
  shows "let leak = \<lparr>lFile = cFile c, lLine = pLine \<alpha>, lClassName = cName c,
                      lVarName = SourceVar \<alpha>,
                      lReason = ''pointer aliased to '' @ sq @ TargetVar \<alpha> @ sq
                                  @ '' and both are deleted (potential double-free)'',
                      lSeverity = ''error''\<rparr>;
             emitted = rule3Alias c (pointerMembers c) M \<alpha>;
             bothDeleted = (\<lambda>M'. (\<exists>d\<in>set (Deallocations M'). dVarName d = SourceVar \<alpha>)
                              \<and> (\<exists>d\<in>set (Deallocations M'). dVarName d = TargetVar \<alpha>))
         in set emitted \<subseteq> set (analyzeClass c) \<and>
            (bothDeleted M \<longrightarrow> emitted = [leak]) \<and>
            (\<not> bothDeleted M \<longrightarrow> emitted = []) \<and>
            (leak \<in> set (analyzeClass c) \<longleftrightarrow>
               (\<exists>M'\<in>set (Methods c). \<alpha> \<in> set (Aliases M') \<and> bothDeleted M'))"
proof -
  let ?leak = "\<lparr>lFile = cFile c, lLine = pLine \<alpha>, lClassName = cName c,
                      lVarName = SourceVar \<alpha>,
                      lReason = ''pointer aliased to '' @ sq @ TargetVar \<alpha> @ sq
                                  @ '' and both are deleted (potential double-free)'',
                      lSeverity = ''error''\<rparr>"
  let ?both = "\<lambda>M'. (\<exists>d\<in>set (Deallocations M'). dVarName d = SourceVar \<alpha>)
                              \<and> (\<exists>d\<in>set (Deallocations M'). dVarName d = TargetVar \<alpha>)"
  have em: "rule3Alias c (pointerMembers c) M' \<alpha> = (if ?both M' then [?leak] else [])" for M'
    using assms(3) by (simp add: rule3Alias_eq sourceDeleted_iff targetDeleted_iff mkLeak_def)
  have sub: "set (rule3Alias c (pointerMembers c) M' \<alpha>) \<subseteq> set (analyzeClass c)"
    if "M' \<in> set (Methods c)" "\<alpha> \<in> set (Aliases M')" for M'
    using that by (rule rule3_in_output)
  have only: "\<exists>M'\<in>set (Methods c). \<alpha> \<in> set (Aliases M') \<and> ?both M'"
    if l: "?leak \<in> set (analyzeClass c)"
  proof -
    have "take 9 (lReason ?leak) = ''pointer a''" by simp
    from rule3_leak_origin [OF l this] obtain M' \<alpha>' where M': "M' \<in> set (Methods c)"
      and a': "\<alpha>' \<in> set (Aliases M')"
      and l': "?leak \<in> set (rule3Alias c (pointerMembers c) M' \<alpha>')"
      by blast
    from in_rule3Alias [OF l'] have eq: "pLine \<alpha>' = pLine \<alpha>" "SourceVar \<alpha>' = SourceVar \<alpha>"
        "TargetVar \<alpha>' = TargetVar \<alpha>"
      and c': "sourceDeleted (Deallocations M') \<alpha>'" "targetDeleted (Deallocations M') \<alpha>'"
      by (simp_all add: mkLeak_def)
    from eq have "\<alpha>' = \<alpha>" by simp
    with M' a' c' show ?thesis by (auto simp: sourceDeleted_iff targetDeleted_iff)
  qed
  have "set (rule3Alias c (pointerMembers c) M \<alpha>) \<subseteq> set (analyzeClass c) \<and>
            (?both M \<longrightarrow> rule3Alias c (pointerMembers c) M \<alpha> = [?leak]) \<and>
            (\<not> ?both M \<longrightarrow> rule3Alias c (pointerMembers c) M \<alpha> = []) \<and>
            (?leak \<in> set (analyzeClass c) \<longleftrightarrow>
               (\<exists>M'\<in>set (Methods c). \<alpha> \<in> set (Aliases M') \<and> ?both M'))"
  proof (intro conjI impI iffI)
    show "set (rule3Alias c (pointerMembers c) M \<alpha>) \<subseteq> set (analyzeClass c)"
      by (rule sub [OF assms(1,2)])
    show "rule3Alias c (pointerMembers c) M \<alpha> = [?leak]" if "?both M"
      using that em [of M] by simp
    show "rule3Alias c (pointerMembers c) M \<alpha> = []" if "\<not> ?both M"
      using that em [of M] by simp
    show "\<exists>M'\<in>set (Methods c). \<alpha> \<in> set (Aliases M') \<and> ?both M'"
      if "?leak \<in> set (analyzeClass c)" using that by (rule only)
    show "?leak \<in> set (analyzeClass c)"
      if "\<exists>M'\<in>set (Methods c). \<alpha> \<in> set (Aliases M') \<and> ?both M'"
    proof -
      from that obtain M' where M': "M' \<in> set (Methods c)" "\<alpha> \<in> set (Aliases M')" "?both M'"
        by blast
      then have "rule3Alias c (pointerMembers c) M' \<alpha> = [?leak]" using em [of M'] by simp
      with sub [OF M'(1,2)] show ?thesis by simp
    qed
  qed
  then show ?thesis unfolding Let_def .
qed

text \<open>
  Claim C6 at \<open>DoubleDeleteViaAlias\<close> of the test data: \<open>int *alias = original;\<close> at
  line 161, then \<open>delete alias; delete original;\<close>.
\<close>

theorem rule3_double_free_witness:
  "exBadFunction \<in> set (Methods exDoubleDelete) \<and>
   \<lparr>SourceVar = ''original'', TargetVar = ''alias'', pLine = 161\<rparr> \<in> set (Aliases exBadFunction) \<and>
   map_of (pointerMembers exDoubleDelete) ''original'' \<noteq> None \<and>
   (\<exists>d\<in>set (Deallocations exBadFunction). dVarName d = ''original'') \<and>
   (\<exists>d\<in>set (Deallocations exBadFunction). dVarName d = ''alias'') \<and>
   \<lparr>lFile = ''edge_cases.cpp'', lLine = 161, lClassName = ''DoubleDeleteViaAlias'',
     lVarName = ''original'',
     lReason = ''pointer aliased to 'alias' and both are deleted (potential double-free)'',
     lSeverity = ''error''\<rparr> \<in> set (analyzeClass exDoubleDelete)"
proof -
  have m: "exBadFunction \<in> set (Methods exDoubleDelete)"
    by (simp add: exDoubleDelete_def)
  have a: "\<lparr>SourceVar = ''original'', TargetVar = ''alias'', pLine = 161\<rparr> \<in> set (Aliases exBadFunction)"
    by (simp add: exBadFunction_def func_def)
  have p: "map_of (pointerMembers exDoubleDelete) ''original'' \<noteq> None"
    by (simp add: exDoubleDelete_def ex_defs)
  have d: "\<exists>d\<in>set (Deallocations exBadFunction). dVarName d = ''original''"
       "\<exists>d\<in>set (Deallocations exBadFunction). dVarName d = ''alias''"
    by (simp_all add: exBadFunction_def func_def)
  have n: "cFile exDoubleDelete = ''edge_cases.cpp''" "cName exDoubleDelete = ''DoubleDeleteViaAlias''"
    by (simp_all add: exDoubleDelete_def)
  from rule3_double_free [OF m a] p d m a n
  have "\<lparr>lFile = ''edge_cases.cpp'', lLine = 161, lClassName = ''DoubleDeleteViaAlias'',
     lVarName = ''original'',
     lReason = ''pointer aliased to 'alias' and both are deleted (potential double-free)'',
     lSeverity = ''error''\<rparr> \<in> set (analyzeClass exDoubleDelete)"
    unfolding Let_def by auto
  with m a p d show ?thesis by blast
qed

section \<open>The multi-level collection of deallocations\<close>


text \<open>
  A method that bears the name under which the destructor is recorded is never entered:
  the destructor's name is visited from the start. Below, the method is one invocation
  edge from the destructor and its deallocation is not collected.
\<close>

lemma method_named_as_destructor_not_entered:
  "methodMap exNameClash (fName exClashDtor) = Some exClashMethod \<and>
   exClashMethod \<in> within (methodMap exNameClash) 1 exClashDtor \<and>
   \<not> simpleChain (methodMap exNameClash) {fName exClashDtor} 5 exClashDtor \<and>
   deallocatedVars exNameClash ''p'' = None"
  by (simp add: exNameClash_def exClashDtor_def exClashMethod_def ex_defs ex_trav_defs)



text \<open>
  Claim C8: a traversal from the destructor runs the body of each function at most once
  (the names in the log are distinct, and they are exactly the visited set), so it runs
  at most one body per method plus one for the destructor, on any call graph, cyclic or
  not; a function whose name is already visited leaves the state as it is; and the calls
  of one function share the visited set: the later calls start from the state the earlier
  ones left, which holds every name visited before.
\<close>

theorem traversal_visits_once:
  "(let r = collectLogged (Some d) (methodMap c) ((Map.empty, {}), []) MaxMethodDepth
    in fst r = collectDeallocations (Some d) (methodMap c) (Map.empty, {}) MaxMethodDepth \<and>
       distinct (map fName (snd r)) \<and> fName ` set (snd r) = snd (fst r) \<and>
       length (snd r) \<le> Suc (length (Methods c))) \<and>
   (fName f \<in> snd st \<longrightarrow> collectDeallocations (Some f) mm st depth = st) \<and>
   collectCalls (cs1 @ cs2) mm st depth
     = collectCalls cs2 mm (collectCalls cs1 mm st depth) depth \<and>
   snd st \<subseteq> snd (collectCalls cs1 mm st depth)"
proof -
  let ?r = "collectLogged (Some d) (methodMap c) ((Map.empty, {}), []) MaxMethodDepth"
  let ?S = "insert d (set (Methods c))"
  have ran: "ran (methodMap c) \<subseteq> ?S"
    using methodMap_in_Methods by (auto simp: ran_def)
  have "logInv ?S ((Map.empty, {}), [])" by (simp add: logInv_def)
  with logged_inv(1) [of ?S "((Map.empty, {}), [])" "Some d" "methodMap c" MaxMethodDepth] ran
  have inv: "logInv ?S ?r" by simp
  then have dist: "distinct (map fName (snd ?r))" and names: "fName ` set (snd ?r) = snd (fst ?r)"
    and sub: "set (snd ?r) \<subseteq> ?S"
    by (simp_all add: logInv_def)
  from dist have "distinct (snd ?r)" by (simp add: distinct_map)
  then have "length (snd ?r) = card (set (snd ?r))" by (simp add: distinct_card)
  also have "\<dots> \<le> card ?S" by (rule card_mono) (use sub in simp_all)
  also have "\<dots> \<le> Suc (card (set (Methods c)))" by (simp add: card_insert_le_m1)
  also have "\<dots> \<le> Suc (length (Methods c))" by (simp add: card_length)
  finally have len: "length (snd ?r) \<le> Suc (length (Methods c))" .
  have fst: "fst ?r = collectDeallocations (Some d) (methodMap c) (Map.empty, {}) MaxMethodDepth"
    by (simp add: logged_fst)
  show ?thesis
    unfolding Let_def
    using fst dist names len collect_visited_noop [of f st mm depth]
      collectCalls_append [of cs1 cs2 mm st depth] visited_mono(2) [of st cs1 mm depth]
    by blast
qed

text \<open>
  Claim C8 at a call graph with a cycle and a diamond: the bodies of the destructor,
  \<open>a\<close>, \<open>c\<close> and \<open>b\<close> run once each, in this order.
\<close>

theorem traversal_visits_once_witness:
  "map fName (snd (collectLogged (Some exCycDtor) (methodMap exCyclic) ((Map.empty, {}), [])
      MaxMethodDepth)) = [''~G'', ''a'', ''c'', ''b''] \<and>
   distinct (map fName (snd (collectLogged (Some exCycDtor) (methodMap exCyclic)
      ((Map.empty, {}), []) MaxMethodDepth))) \<and>
   length (snd (collectLogged (Some exCycDtor) (methodMap exCyclic) ((Map.empty, {}), [])
      MaxMethodDepth)) \<le> Suc (length (Methods exCyclic)) \<and>
   fName exCycA \<in> snd (Map.empty :: string \<rightharpoonup> Deallocation, {''~G'', ''a''}) \<and>
   collectDeallocations (Some exCycA) (methodMap exCyclic) (Map.empty, {''~G'', ''a''}) 4
     = (Map.empty, {''~G'', ''a''})"
proof -
  have mm: "methodMap exCyclic = [''a'' \<mapsto> exCycA, ''b'' \<mapsto> exCycB, ''c'' \<mapsto> exCycC]"
    by (simp add: exCyclic_def methodMap_def exCycA_def exCycB_def exCycC_def func_def)
  have calls: "MethodCalls exCycDtor = [''a'', ''b'']" "MethodCalls exCycA = [''c'', ''b'']"
    "MethodCalls exCycB = [''c'', ''a'']" "MethodCalls exCycC = [''a'']"
    "fName exCycDtor = ''~G''" "fName exCycA = ''a''" "fName exCycB = ''b''" "fName exCycC = ''c''"
    by (simp_all add: exCycDtor_def exCycA_def exCycB_def exCycC_def func_def)
  have log: "snd (collectLogged (Some exCycDtor) (methodMap exCyclic) ((Map.empty, {}), [])
      MaxMethodDepth) = [exCycDtor, exCycA, exCycC, exCycB]"
    by (simp add: mm calls MaxMethodDepth_def collectLogged.simps)
  have h: "fName exCycA \<in> snd (Map.empty :: string \<rightharpoonup> Deallocation, {''~G'', ''a''})"
    by (simp add: calls)
  note t = traversal_visits_once [of exCycDtor exCyclic exCycA
      "(Map.empty, {''~G'', ''a''})" "methodMap exCyclic" 4]
  from t have "distinct (map fName (snd (collectLogged (Some exCycDtor) (methodMap exCyclic)
      ((Map.empty, {}), []) MaxMethodDepth)))"
    and "length (snd (collectLogged (Some exCycDtor) (methodMap exCyclic) ((Map.empty, {}), [])
      MaxMethodDepth)) \<le> Suc (length (Methods exCyclic))"
    unfolding Let_def by blast+
  moreover from t h have "collectDeallocations (Some exCycA) (methodMap exCyclic)
      (Map.empty, {''~G'', ''a''}) 4 = (Map.empty, {''~G'', ''a''})"
    by blast
  ultimately show ?thesis using h by (simp add: log calls)
qed

section \<open>The registry's merge of members\<close>

lemma Members_mergeClassInto:
  "Members (mergeClassInto cap target source) = mergeMembers target source"
  by (simp add: mergeClassInto_def)

lemmas header_defs = isHeaderFile_def filepath_Ext_def strings_ToLower_def toLowerChar_def

text \<open>
  Claim C7, as stated, fails where it says that a header's empty member list also
  replaces the members held: the source guards the replacement with
  \<open>len(source.Members) > 0\<close>. Here the held record comes from \<open>impl.cpp\<close> and has one
  member, the incoming record comes from \<open>impl.h\<close> and has none, and the merged record
  keeps the member.
\<close>

theorem header_without_members_keeps_target:
  "isHeaderFile (cFile exHeaderNoMembers) \<and> \<not> isHeaderFile (cFile exImplWithMembers) \<and>
   Members exHeaderNoMembers = [] \<and>
   Members (mergeClassInto 0 exImplWithMembers exHeaderNoMembers) = Members exImplWithMembers \<and>
   Members (mergeClassInto 0 exImplWithMembers exHeaderNoMembers) \<noteq> Members exHeaderNoMembers"
  by (simp add: Members_mergeClassInto mergeMembers_def exHeaderNoMembers_def
        exImplWithMembers_def header_defs)

text \<open>
  Claim C7, amended: when the incoming record \<open>S\<close> comes from a header file (extension
  \<open>.h\<close>, \<open>.hpp\<close> or \<open>.hxx\<close>, in any case of letters) and the held record \<open>T\<close> does not,
  the merge replaces \<open>T.Members\<close> by \<open>S.Members\<close> if \<open>S.Members\<close> is not empty, and keeps
  \<open>T.Members\<close> if it is; when \<open>T\<close> comes from a header and \<open>S\<close> does not, \<open>T.Members\<close> is
  kept.
\<close>

theorem merge_prefers_header_members:
  "(isHeaderFile (cFile S) \<and> \<not> isHeaderFile (cFile T) \<longrightarrow>
      Members (mergeClassInto cap T S) = (if Members S \<noteq> [] then Members S else Members T)) \<and>
   (isHeaderFile (cFile T) \<and> \<not> isHeaderFile (cFile S) \<longrightarrow>
      Members (mergeClassInto cap T S) = Members T)"
  by (simp add: Members_mergeClassInto mergeMembers_def)

text \<open>
  Claim C7, amended, at the two records of \<open>DataManager\<close>, merged in either order.
\<close>

theorem merge_prefers_header_members_witness:
  "isHeaderFile (cFile exHeaderRecord) \<and> \<not> isHeaderFile (cFile exImplRecord) \<and>
   Members exHeaderRecord \<noteq> [] \<and>
   Members (mergeClassInto 1 exImplRecord exHeaderRecord) = Members exHeaderRecord \<and>
   Members (mergeClassInto 0 exHeaderRecord exImplRecord) = Members exHeaderRecord"
proof -
  have h: "isHeaderFile (cFile exHeaderRecord)" "\<not> isHeaderFile (cFile exImplRecord)"
    by (simp_all add: exHeaderRecord_def exImplRecord_def header_defs)
  have ne: "Members exHeaderRecord \<noteq> []" by (simp add: exHeaderRecord_def)
  from merge_prefers_header_members [of exHeaderRecord exImplRecord 1] h ne
  have a: "Members (mergeClassInto 1 exImplRecord exHeaderRecord) = Members exHeaderRecord"
    by simp
  from merge_prefers_header_members [of exImplRecord exHeaderRecord 0] h
  have b: "Members (mergeClassInto 0 exHeaderRecord exImplRecord) = Members exHeaderRecord"
    by simp
  from h ne a b show ?thesis by simp
qed

section \<open>The lexer on an unterminated block comment\<close>

text \<open>
  Claim C9 at the input \<open>/* abc\<close>: the loop that skips a block comment runs while
  \<open>l.pos < len(l.input)-1\<close>, so on a comment without \<open>*/\<close> it stops one byte before the
  end of the input. The last byte, \<open>c\<close>, is then lexed as an identifier, at line 1,
  column 6, where the claim has the token stream continue directly with the End token.
\<close>

theorem unterminated_comment_last_byte_is_lexed:
  "Tokenize (NewLexer ''/* abc'')
     = [\<lparr>tType = TokenIdent, tValue = ''c'', tLine = 1, tColumn = 6\<rparr>,
        \<lparr>tType = TokenEOF, tValue = [], tLine = 1, tColumn = 7\<rparr>]"
  by code_simp

section \<open>A destructor that is only declared\<close>




















end
